theory Spec2Isabelle
  imports Complex_Main
begin

section \<open>Recipe costing model of \<^verbatim>\<open>restaurant_operations/models/recipe.py\<close>\<close>

text \<open>
  The module declares three Odoo models: \<^verbatim>\<open>restaurant.recipe\<close>,
  \<^verbatim>\<open>restaurant.recipe.ingredient\<close> and \<^verbatim>\<open>restaurant.recipe.instruction\<close>.
  Each model class becomes a record of its stored fields, a table is the list of its
  rows paired with their ids (in insertion order, which is id order), and the database
  is a record of the three tables plus the product master data the module reads.

  Odoo \<^verbatim>\<open>Integer\<close> fields are Python ints (\<open>int\<close>). \<^verbatim>\<open>Float\<close> fields are modelled
  as \<open>real\<close>: the methods of the module only add, multiply and divide them, and no
  statement below is about rounding.
\<close>

subsection \<open>Data model\<close>

datatype category = appetizer | sushi | sashimi | roll | dessert | beverage | other

datatype error =
    ValidationError string
  | NotNullViolation string
  | ForeignKeyViolation string
  | MissingError

text \<open>\<^verbatim>\<open>class Recipe(models.Model)\<close>: the stored fields. The two \<^verbatim>\<open>One2many\<close> fields
  are not columns; they are read through the children's \<^verbatim>\<open>recipe_id\<close>. The field
  \<^verbatim>\<open>notes\<close> is \<open>recipe_notes\<close> here, \<open>notes\<close> being a keyword of Isabelle.\<close>

record Recipe =
  name :: string
  category :: category
  prep_time :: int
  serving_size :: int
  total_cost :: real
  cost_per_serving :: real
  recipe_notes :: "string option"
  active :: bool

text \<open>\<^verbatim>\<open>class RecipeIngredient(models.Model)\<close>.\<close>

record RecipeIngredient =
  recipe_id :: nat
  product_id :: nat
  quantity :: real
  uom_id :: nat
  unit_cost :: real
  total_cost :: real

text \<open>\<^verbatim>\<open>class RecipeInstruction(models.Model)\<close>.\<close>

record RecipeInstruction =
  recipe_id :: nat
  sequence :: int
  instruction :: string

text \<open>The field of the external model \<^verbatim>\<open>product.product\<close> that the costing reads
  (\<^verbatim>\<open>product_id.standard_price\<close>). Products are master data of another module: the
  database holds them as a lookup by id.\<close>

record product =
  standard_price :: real

type_synonym 'r table = "(nat \<times> 'r) list"

record db =
  recipes :: "Recipe table"
  ingredients :: "RecipeIngredient table"
  instructions :: "RecipeInstruction table"
  products :: "nat \<rightharpoonup> product"
  next_id :: nat

subsection \<open>Record sets\<close>

definition ids_of :: "'r table \<Rightarrow> nat list" where
  "ids_of tbl = map fst tbl"

definition exists_ids :: "nat list \<Rightarrow> 'r table \<Rightarrow> bool" where
  "exists_ids ids tbl = list_all (\<lambda>i. i \<in> set (ids_of tbl)) ids"

text \<open>The rows of a record set.\<close>

definition browse :: "nat list \<Rightarrow> 'r table \<Rightarrow> 'r list" where
  "browse ids tbl = map snd (filter (\<lambda>(j, r). j \<in> set ids) tbl)"

text \<open>Assigning to fields of one record: \<^verbatim>\<open>record.field = value\<close>.\<close>

definition set_row :: "nat \<Rightarrow> ('r \<Rightarrow> 'r) \<Rightarrow> 'r table \<Rightarrow> 'r table" where
  "set_row i f tbl = map (\<lambda>(j, r). if j = i then (j, f r) else (j, r)) tbl"

text \<open>\<^verbatim>\<open>recipe.ingredient_ids\<close>: the ingredient lines whose \<^verbatim>\<open>recipe_id\<close> is the recipe,
  in the default order of the model (by id).\<close>

definition ingredient_ids :: "db \<Rightarrow> nat \<Rightarrow> RecipeIngredient list" where
  "ingredient_ids d rid =
     map snd (filter (\<lambda>(i, g). RecipeIngredient.recipe_id g = rid) (ingredients d))"

text \<open>Python's \<^verbatim>\<open>sum\<close>: starts at 0 and adds from the left.\<close>

definition py_sum :: "real list \<Rightarrow> real" where
  "py_sum xs = foldl (+) 0 xs"

subsection \<open>The methods of \<^verbatim>\<open>recipe.py\<close>\<close>

text \<open>Isabelle names cannot start with an underscore, and two classes define
  \<^verbatim>\<open>_compute_total_cost\<close>: each method is named \<open>Class_method\<close>. The first argument
  is \<^verbatim>\<open>self\<close>, the ids of the record set; \<^verbatim>\<open>for record in self\<close> is a \<open>fold\<close>.\<close>

text \<open>\<^verbatim>\<open>Recipe._compute_total_cost\<close> (lines 32-35).\<close>

definition Recipe_compute_total_cost :: "nat list \<Rightarrow> db \<Rightarrow> db" where
  "Recipe_compute_total_cost self d0 =
     fold (\<lambda>rid d. d\<lparr>recipes := set_row rid
             (\<lambda>recipe. recipe\<lparr>Recipe.total_cost :=
                py_sum (map RecipeIngredient.total_cost (ingredient_ids d rid))\<rparr>)
             (recipes d)\<rparr>) self d0"

text \<open>\<^verbatim>\<open>Recipe._compute_cost_per_serving\<close> (lines 37-43). Dividing a float by an int
  converts the int.\<close>

definition Recipe_compute_cost_per_serving :: "nat list \<Rightarrow> db \<Rightarrow> db" where
  "Recipe_compute_cost_per_serving self d0 =
     fold (\<lambda>rid d. d\<lparr>recipes := set_row rid
             (\<lambda>recipe.
                if serving_size recipe > 0
                then recipe\<lparr>cost_per_serving :=
                       Recipe.total_cost recipe / of_int (serving_size recipe)\<rparr>
                else recipe\<lparr>cost_per_serving := 0\<rparr>)
             (recipes d)\<rparr>) self d0"

text \<open>\<^verbatim>\<open>Recipe._check_serving_size\<close> (lines 45-49): raises at the first record of
  \<^verbatim>\<open>self\<close> whose serving size is not positive.\<close>

fun Recipe_check_serving_size :: "Recipe list \<Rightarrow> error + unit" where
  "Recipe_check_serving_size [] = Inr ()"
| "Recipe_check_serving_size (recipe # self) =
     (if serving_size recipe \<le> 0
      then Inl (ValidationError ''Serving size must be greater than 0'')
      else Recipe_check_serving_size self)"

text \<open>\<^verbatim>\<open>RecipeIngredient._compute_total_cost\<close> (lines 64-67).\<close>

definition RecipeIngredient_compute_total_cost :: "nat list \<Rightarrow> db \<Rightarrow> db" where
  "RecipeIngredient_compute_total_cost self d0 =
     fold (\<lambda>i d. d\<lparr>ingredients := set_row i
             (\<lambda>ingredient. ingredient\<lparr>RecipeIngredient.total_cost :=
                quantity ingredient * unit_cost ingredient\<rparr>)
             (ingredients d)\<rparr>) self d0"

subsection \<open>The ORM operations behind the declarations\<close>

text \<open>
  The module has no write path of its own: records are created, written and deleted by
  the ORM, which reads the declarations of \<^verbatim>\<open>recipe.py\<close> (defaults, \<^verbatim>\<open>required\<close>,
  \<^verbatim>\<open>related\<close>, \<^verbatim>\<open>ondelete\<close>, \<^verbatim>\<open>_order\<close>, \<^verbatim>\<open>@api.depends\<close>, \<^verbatim>\<open>@api.constrains\<close>)
  and calls the methods above. The ORM is not part of the repository; the operations
  below model its contract, and each says which declaration it reads.
\<close>

text \<open>The values passed to \<^verbatim>\<open>create\<close> and \<^verbatim>\<open>write\<close>: a field that is \<open>None\<close> is
  absent from the dictionary. Computed fields are not written by callers.\<close>

record recipe_vals =
  r_name :: "string option"
  r_category :: "category option"
  r_prep_time :: "int option"
  r_serving_size :: "int option"
  r_notes :: "string option"
  r_active :: "bool option"

record ingredient_vals =
  g_recipe_id :: "nat option"
  g_product_id :: "nat option"
  g_quantity :: "real option"
  g_uom_id :: "nat option"

record instruction_vals =
  s_recipe_id :: "nat option"
  s_sequence :: "int option"
  s_instruction :: "string option"

definition map_rows :: "nat list \<Rightarrow> ('r \<Rightarrow> 'r) \<Rightarrow> 'r table \<Rightarrow> 'r table" where
  "map_rows ids f tbl = map (\<lambda>(j, r). if j \<in> set ids then (j, f r) else (j, r)) tbl"

definition or_else :: "'a option \<Rightarrow> 'a \<Rightarrow> 'a" where
  "or_else v dflt = (case v of None \<Rightarrow> dflt | Some x \<Rightarrow> x)"

definition recipe_write_vals :: "recipe_vals \<Rightarrow> Recipe \<Rightarrow> Recipe" where
  "recipe_write_vals vals r =
     r\<lparr>name := or_else (r_name vals) (name r),
       category := or_else (r_category vals) (category r),
       prep_time := or_else (r_prep_time vals) (prep_time r),
       serving_size := or_else (r_serving_size vals) (serving_size r),
       recipe_notes := (case r_notes vals of None \<Rightarrow> recipe_notes r | Some t \<Rightarrow> Some t),
       active := or_else (r_active vals) (active r)\<rparr>"

definition ingredient_write_vals :: "ingredient_vals \<Rightarrow> RecipeIngredient \<Rightarrow> RecipeIngredient" where
  "ingredient_write_vals vals g =
     g\<lparr>RecipeIngredient.recipe_id := or_else (g_recipe_id vals) (RecipeIngredient.recipe_id g),
       product_id := or_else (g_product_id vals) (product_id g),
       quantity := or_else (g_quantity vals) (quantity g),
       uom_id := or_else (g_uom_id vals) (uom_id g)\<rparr>"

definition instruction_write_vals :: "instruction_vals \<Rightarrow> RecipeInstruction \<Rightarrow> RecipeInstruction" where
  "instruction_write_vals vals s =
     s\<lparr>RecipeInstruction.recipe_id := or_else (s_recipe_id vals) (RecipeInstruction.recipe_id s),
       sequence := or_else (s_sequence vals) (sequence s),
       instruction := or_else (s_instruction vals) (instruction s)\<rparr>"

text \<open>The recipes that own the ingredient lines of a record set
  (\<^verbatim>\<open>ingredients.recipe_id\<close>).\<close>

definition owners :: "nat list \<Rightarrow> db \<Rightarrow> nat list" where
  "owners ids d = map RecipeIngredient.recipe_id (browse ids (ingredients d))"

text \<open>Modelled from the spec: the recomputation of the stored related field
  \<^verbatim>\<open>unit_cost = fields.Float(related='product_id.standard_price', store=True)\<close>
  (line 61), which the ORM generates; the spec's \<^verbatim>\<open>recompute_unit_cost()\<close> "mirrors the
  linked product's current standard price into unit_cost". A missing product reads
  as 0.0.\<close>

definition RecipeIngredient_compute_unit_cost :: "nat list \<Rightarrow> db \<Rightarrow> db" where
  "RecipeIngredient_compute_unit_cost self d0 =
     fold (\<lambda>i d. d\<lparr>ingredients := set_row i
             (\<lambda>ingredient. ingredient\<lparr>unit_cost :=
                (case products d (product_id ingredient) of
                   None \<Rightarrow> 0 | Some p \<Rightarrow> standard_price p)\<rparr>)
             (ingredients d)\<rparr>) self d0"

text \<open>Modelled from the spec: reading \<^verbatim>\<open>recipe.instruction_ids\<close>. The ORM orders the
  rows of a model by its \<^verbatim>\<open>_order\<close>, which is \<^verbatim>\<open>'sequence'\<close> for
  \<^verbatim>\<open>RecipeInstruction\<close> (line 78); "instructions are exposed sorted by sequence
  ascending", ties in a stable order (here the order of the rows in the table).\<close>

definition instruction_ids :: "db \<Rightarrow> nat \<Rightarrow> RecipeInstruction list" where
  "instruction_ids d rid =
     sort_key sequence
       (map snd (filter (\<lambda>(i, s). RecipeInstruction.recipe_id s = rid) (instructions d)))"

text \<open>Modelled from the spec: \<^verbatim>\<open>Recipe.create(vals)\<close>. The ORM fills the declared defaults
  (\<^verbatim>\<open>category 'other'\<close>, \<^verbatim>\<open>prep_time 0\<close>, \<^verbatim>\<open>serving_size 1\<close>, \<^verbatim>\<open>active True\<close>), refuses
  a missing \<^verbatim>\<open>required\<close> field, computes the stored computed fields and runs the
  \<^verbatim>\<open>@api.constrains\<close> methods on the new record. The new id is \<open>next_id\<close>.\<close>

definition new_recipe :: "string \<Rightarrow> recipe_vals \<Rightarrow> Recipe" where
  "new_recipe n vals =
     \<lparr>name = n,
      category = or_else (r_category vals) other,
      prep_time = or_else (r_prep_time vals) 0,
      serving_size = or_else (r_serving_size vals) 1,
      Recipe.total_cost = 0,
      cost_per_serving = 0,
      recipe_notes = r_notes vals,
      active = or_else (r_active vals) True\<rparr>"

definition create_recipe :: "recipe_vals \<Rightarrow> db \<Rightarrow> error + db" where
  "create_recipe vals d =
     (case r_name vals of
        None \<Rightarrow> Inl (NotNullViolation ''name'')
      | Some n \<Rightarrow>
          (let rid = next_id d;
               d1 = d\<lparr>recipes := recipes d @ [(rid, new_recipe n vals)],
                      next_id := Suc rid\<rparr>;
               d2 = Recipe_compute_total_cost [rid] d1;
               d3 = Recipe_compute_cost_per_serving [rid] d2
           in case Recipe_check_serving_size (browse [rid] (recipes d3)) of
                Inl e \<Rightarrow> Inl e
              | Inr _ \<Rightarrow> Inr d3))"

text \<open>Modelled from the spec: \<^verbatim>\<open>recipes.write(vals)\<close>. The ORM assigns the given fields
  to every record of the set; \<^verbatim>\<open>@api.depends('total_cost', 'serving_size')\<close> makes it
  recompute \<^verbatim>\<open>cost_per_serving\<close> when \<^verbatim>\<open>serving_size\<close> is written, and
  \<^verbatim>\<open>@api.constrains('serving_size')\<close> makes it call \<^verbatim>\<open>_check_serving_size\<close> on the
  written records when \<^verbatim>\<open>serving_size\<close> is among the fields.\<close>

definition write_recipe :: "nat list \<Rightarrow> recipe_vals \<Rightarrow> db \<Rightarrow> error + db" where
  "write_recipe ids vals d =
     (if \<not> exists_ids ids (recipes d) then Inl MissingError
      else
        (let d1 = d\<lparr>recipes := map_rows ids (recipe_write_vals vals) (recipes d)\<rparr>;
             d2 = (if r_serving_size vals \<noteq> None
                   then Recipe_compute_cost_per_serving ids d1 else d1)
         in if r_serving_size vals \<noteq> None
            then (case Recipe_check_serving_size (browse ids (recipes d2)) of
                    Inl e \<Rightarrow> Inl e
                  | Inr _ \<Rightarrow> Inr d2)
            else Inr d2))"

text \<open>Modelled from the spec: \<^verbatim>\<open>recipes.unlink()\<close>. Both child models declare
  \<^verbatim>\<open>recipe_id = fields.Many2one('restaurant.recipe', required=True, ondelete='cascade')\<close>
  (lines 56 and 80): the rows that reference a deleted recipe are deleted with it.\<close>

definition unlink_recipe :: "nat list \<Rightarrow> db \<Rightarrow> error + db" where
  "unlink_recipe ids d =
     Inr (d\<lparr>recipes := filter (\<lambda>(j, r). j \<notin> set ids) (recipes d),
            ingredients :=
              filter (\<lambda>(i, g). RecipeIngredient.recipe_id g \<notin> set ids) (ingredients d),
            instructions :=
              filter (\<lambda>(i, s). RecipeInstruction.recipe_id s \<notin> set ids) (instructions d)\<rparr>)"

text \<open>Modelled from the spec: \<^verbatim>\<open>RecipeIngredient.create(vals)\<close>. \<^verbatim>\<open>recipe_id\<close>,
  \<^verbatim>\<open>product_id\<close> and \<^verbatim>\<open>uom_id\<close> are required and the first two must exist;
  \<^verbatim>\<open>quantity\<close> defaults to 1.0. The ORM then computes \<^verbatim>\<open>unit_cost\<close> and
  \<^verbatim>\<open>total_cost\<close> of the line and, by \<^verbatim>\<open>@api.depends('ingredient_ids.total_cost')\<close> and
  \<^verbatim>\<open>@api.depends('total_cost', 'serving_size')\<close>, the two costs of the owning recipe.\<close>

definition new_ingredient :: "nat \<Rightarrow> nat \<Rightarrow> nat \<Rightarrow> ingredient_vals \<Rightarrow> RecipeIngredient" where
  "new_ingredient rid pid u vals =
     \<lparr>RecipeIngredient.recipe_id = rid,
      product_id = pid,
      quantity = or_else (g_quantity vals) 1,
      uom_id = u,
      unit_cost = 0,
      RecipeIngredient.total_cost = 0\<rparr>"

definition create_ingredient :: "ingredient_vals \<Rightarrow> db \<Rightarrow> error + db" where
  "create_ingredient vals d =
     (case g_recipe_id vals of
        None \<Rightarrow> Inl (NotNullViolation ''recipe_id'')
      | Some rid \<Rightarrow>
     (case g_product_id vals of
        None \<Rightarrow> Inl (NotNullViolation ''product_id'')
      | Some pid \<Rightarrow>
     (case g_uom_id vals of
        None \<Rightarrow> Inl (NotNullViolation ''uom_id'')
      | Some u \<Rightarrow>
          if rid \<notin> set (ids_of (recipes d)) then Inl (ForeignKeyViolation ''recipe_id'')
          else if products d pid = None then Inl (ForeignKeyViolation ''product_id'')
          else
            (let i = next_id d;
                 d1 = d\<lparr>ingredients := ingredients d @ [(i, new_ingredient rid pid u vals)],
                        next_id := Suc i\<rparr>;
                 d2 = RecipeIngredient_compute_unit_cost [i] d1;
                 d3 = RecipeIngredient_compute_total_cost [i] d2;
                 d4 = Recipe_compute_total_cost (owners [i] d3) d3;
                 d5 = Recipe_compute_cost_per_serving (owners [i] d3) d4
             in Inr d5))))"

text \<open>Modelled from the spec: \<^verbatim>\<open>ingredients.write(vals)\<close>. Writing \<^verbatim>\<open>product_id\<close>
  recomputes the related \<^verbatim>\<open>unit_cost\<close>; \<^verbatim>\<open>@api.depends('quantity', 'unit_cost')\<close>
  recomputes the line's \<^verbatim>\<open>total_cost\<close> when either changed; the recipes that owned
  the lines before or own them after the write are then recomputed.\<close>

definition write_ingredient :: "nat list \<Rightarrow> ingredient_vals \<Rightarrow> db \<Rightarrow> error + db" where
  "write_ingredient ids vals d =
     (if \<not> exists_ids ids (ingredients d) then Inl MissingError
      else if (case g_recipe_id vals of
                 None \<Rightarrow> False | Some rid \<Rightarrow> rid \<notin> set (ids_of (recipes d)))
      then Inl (ForeignKeyViolation ''recipe_id'')
      else if (case g_product_id vals of
                 None \<Rightarrow> False | Some pid \<Rightarrow> products d pid = None)
      then Inl (ForeignKeyViolation ''product_id'')
      else
        (let before = owners ids d;
             d1 = d\<lparr>ingredients := map_rows ids (ingredient_write_vals vals) (ingredients d)\<rparr>;
             d2 = (if g_product_id vals \<noteq> None
                   then RecipeIngredient_compute_unit_cost ids d1 else d1);
             d3 = (if g_product_id vals \<noteq> None \<or> g_quantity vals \<noteq> None
                   then RecipeIngredient_compute_total_cost ids d2 else d2);
             touched = (g_product_id vals \<noteq> None \<or> g_quantity vals \<noteq> None
                        \<or> g_recipe_id vals \<noteq> None);
             rs = before @ owners ids d3;
             d4 = (if touched then Recipe_compute_total_cost rs d3 else d3);
             d5 = (if touched then Recipe_compute_cost_per_serving rs d4 else d4)
         in Inr d5))"

text \<open>Modelled from the spec: \<^verbatim>\<open>ingredients.unlink()\<close>; the recipes that owned the
  lines are recomputed.\<close>

definition unlink_ingredient :: "nat list \<Rightarrow> db \<Rightarrow> error + db" where
  "unlink_ingredient ids d =
     (let rs = owners ids d;
          d1 = d\<lparr>ingredients := filter (\<lambda>(i, g). i \<notin> set ids) (ingredients d)\<rparr>;
          d2 = Recipe_compute_total_cost rs d1;
          d3 = Recipe_compute_cost_per_serving rs d2
      in Inr d3)"

text \<open>Modelled from the spec: a write of \<^verbatim>\<open>standard_price\<close> on a product, by the module
  that owns products. The related field depends on \<^verbatim>\<open>product_id.standard_price\<close>, so the
  lines linked to the product are recomputed, and their recipes after them.\<close>

definition write_product_price :: "nat \<Rightarrow> real \<Rightarrow> db \<Rightarrow> error + db" where
  "write_product_price pid price d =
     (case products d pid of
        None \<Rightarrow> Inl MissingError
      | Some p \<Rightarrow>
          (let d1 = d\<lparr>products := (products d)(pid \<mapsto> p\<lparr>standard_price := price\<rparr>)\<rparr>;
               lines = map fst (filter (\<lambda>(i, g). product_id g = pid) (ingredients d1));
               d2 = RecipeIngredient_compute_unit_cost lines d1;
               d3 = RecipeIngredient_compute_total_cost lines d2;
               d4 = Recipe_compute_total_cost (owners lines d3) d3;
               d5 = Recipe_compute_cost_per_serving (owners lines d3) d4
           in Inr d5))"

text \<open>Modelled from the spec: the operations on instruction steps. \<^verbatim>\<open>recipe_id\<close> and
  \<^verbatim>\<open>instruction\<close> are required, \<^verbatim>\<open>sequence\<close> defaults to 10.\<close>

definition create_instruction :: "instruction_vals \<Rightarrow> db \<Rightarrow> error + db" where
  "create_instruction vals d =
     (case s_recipe_id vals of
        None \<Rightarrow> Inl (NotNullViolation ''recipe_id'')
      | Some rid \<Rightarrow>
     (case s_instruction vals of
        None \<Rightarrow> Inl (NotNullViolation ''instruction'')
      | Some t \<Rightarrow>
          if rid \<notin> set (ids_of (recipes d)) then Inl (ForeignKeyViolation ''recipe_id'')
          else Inr (d\<lparr>instructions := instructions d @
                       [(next_id d, \<lparr>RecipeInstruction.recipe_id = rid,
                                     sequence = or_else (s_sequence vals) 10,
                                     instruction = t\<rparr>)],
                     next_id := Suc (next_id d)\<rparr>)))"

definition write_instruction :: "nat list \<Rightarrow> instruction_vals \<Rightarrow> db \<Rightarrow> error + db" where
  "write_instruction ids vals d =
     (if \<not> exists_ids ids (instructions d) then Inl MissingError
      else if (case s_recipe_id vals of
                 None \<Rightarrow> False | Some rid \<Rightarrow> rid \<notin> set (ids_of (recipes d)))
      then Inl (ForeignKeyViolation ''recipe_id'')
      else Inr (d\<lparr>instructions :=
                   map_rows ids (instruction_write_vals vals) (instructions d)\<rparr>))"

definition unlink_instruction :: "nat list \<Rightarrow> db \<Rightarrow> error + db" where
  "unlink_instruction ids d =
     Inr (d\<lparr>instructions := filter (\<lambda>(i, s). i \<notin> set ids) (instructions d)\<rparr>)"

subsection \<open>Operations, transactions and reachable states\<close>

datatype op =
    CreateRecipe recipe_vals
  | WriteRecipe "nat list" recipe_vals
  | UnlinkRecipe "nat list"
  | CreateIngredient ingredient_vals
  | WriteIngredient "nat list" ingredient_vals
  | UnlinkIngredient "nat list"
  | CreateInstruction instruction_vals
  | WriteInstruction "nat list" instruction_vals
  | UnlinkInstruction "nat list"
  | WriteProductPrice nat real

fun execute :: "op \<Rightarrow> db \<Rightarrow> error + db" where
  "execute (CreateRecipe vals) d = create_recipe vals d"
| "execute (WriteRecipe ids vals) d = write_recipe ids vals d"
| "execute (UnlinkRecipe ids) d = unlink_recipe ids d"
| "execute (CreateIngredient vals) d = create_ingredient vals d"
| "execute (WriteIngredient ids vals) d = write_ingredient ids vals d"
| "execute (UnlinkIngredient ids) d = unlink_ingredient ids d"
| "execute (CreateInstruction vals) d = create_instruction vals d"
| "execute (WriteInstruction ids vals) d = write_instruction ids vals d"
| "execute (UnlinkInstruction ids) d = unlink_instruction ids d"
| "execute (WriteProductPrice pid price) d = write_product_price pid price d"

text \<open>Modelled from the spec: one operation in its transaction. "Either the whole set of
  field writes and derived recomputations commits, or none of it does": an operation
  that raises leaves the database as it was and reports the error.\<close>

definition transaction :: "op \<Rightarrow> db \<Rightarrow> db \<times> error option" where
  "transaction f d = (case execute f d of Inl e \<Rightarrow> (d, Some e) | Inr d' \<Rightarrow> (d', None))"

text \<open>The states the module can be in: a database without recipes, over any product
  master data, and every state a successful operation leads to.\<close>

inductive reachable :: "db \<Rightarrow> bool" where
  init: "reachable \<lparr>recipes = [], ingredients = [], instructions = [],
                    products = ps, next_id = 1\<rparr>"
| step: "reachable d \<Longrightarrow> execute f d = Inr d' \<Longrightarrow> reachable d'"

subsection \<open>Consistency predicates\<close>

text \<open>I2 of the spec, for every recipe row.\<close>

definition I2 :: "db \<Rightarrow> bool" where
  "I2 d = (\<forall>(rid, r) \<in> set (recipes d).
             Recipe.total_cost r =
               py_sum (map RecipeIngredient.total_cost (ingredient_ids d rid)))"

text \<open>I3 of the spec, for every ingredient row.\<close>

definition I3 :: "db \<Rightarrow> bool" where
  "I3 d = (\<forall>(i, g) \<in> set (ingredients d).
             RecipeIngredient.total_cost g = quantity g * unit_cost g)"

text \<open>I4 of the spec, for every recipe row.\<close>

definition I4 :: "db \<Rightarrow> bool" where
  "I4 d = (\<forall>(rid, r) \<in> set (recipes d).
             cost_per_serving r =
               (if serving_size r > 0
                then Recipe.total_cost r / of_int (serving_size r) else 0))"

text \<open>Every ingredient row carries the price of the product it is linked to.\<close>

definition unit_cost_synced :: "db \<Rightarrow> bool" where
  "unit_cost_synced d = (\<forall>(i, g) \<in> set (ingredients d).
             \<exists>p. products d (product_id g) = Some p \<and> unit_cost g = standard_price p)"

text \<open>I5 of the spec: every child row references a recipe row.\<close>

definition no_orphans :: "db \<Rightarrow> bool" where
  "no_orphans d =
     ((\<forall>(i, g) \<in> set (ingredients d). RecipeIngredient.recipe_id g \<in> set (ids_of (recipes d)))
      \<and> (\<forall>(i, s) \<in> set (instructions d).
             RecipeInstruction.recipe_id s \<in> set (ids_of (recipes d))))"

text \<open>The bodies of the two loops over ingredient lines, as functions of one row: what
  \<^verbatim>\<open>RecipeIngredient._compute_total_cost\<close> and the recomputation of the related
  \<^verbatim>\<open>unit_cost\<close> assign to a line. They are used to state what an operation does to
  a table.\<close>

definition line_total_cost :: "RecipeIngredient \<Rightarrow> RecipeIngredient" where
  "line_total_cost g = g\<lparr>RecipeIngredient.total_cost := quantity g * unit_cost g\<rparr>"

definition line_unit_cost :: "(nat \<rightharpoonup> product) \<Rightarrow> RecipeIngredient \<Rightarrow> RecipeIngredient" where
  "line_unit_cost ps g =
     g\<lparr>unit_cost := (case ps (product_id g) of None \<Rightarrow> 0 | Some p \<Rightarrow> standard_price p)\<rparr>"

text \<open>What \<^verbatim>\<open>ingredients.write(vals)\<close> does to one of the written lines: the assignment of
  the given fields, then the recomputation of \<^verbatim>\<open>unit_cost\<close> when \<^verbatim>\<open>product_id\<close> was
  written and of \<^verbatim>\<open>total_cost\<close> when \<^verbatim>\<open>product_id\<close> or \<^verbatim>\<open>quantity\<close> was.\<close>

definition written_line :: "ingredient_vals \<Rightarrow> (nat \<rightharpoonup> product) \<Rightarrow> RecipeIngredient \<Rightarrow> RecipeIngredient" where
  "written_line vals ps g =
     (let g1 = ingredient_write_vals vals g;
          g2 = (if g_product_id vals \<noteq> None then line_unit_cost ps g1 else g1)
      in if g_product_id vals \<noteq> None \<or> g_quantity vals \<noteq> None
         then line_total_cost g2 else g2)"

text \<open>A line carries the price of the product it is linked to.\<close>

definition line_synced :: "(nat \<rightharpoonup> product) \<Rightarrow> RecipeIngredient \<Rightarrow> bool" where
  "line_synced ps g = (\<exists>p. ps (product_id g) = Some p \<and> unit_cost g = standard_price p)"

subsection \<open>Recomputing in dependency order\<close>

text \<open>The three compute methods in the order of their dependencies: ingredient lines
  first, then the recipes' totals, then the costs per serving.\<close>

definition recompute :: "nat list \<Rightarrow> nat list \<Rightarrow> db \<Rightarrow> db" where
  "recompute lines rs d =
     Recipe_compute_cost_per_serving rs
       (Recipe_compute_total_cost rs (RecipeIngredient_compute_total_cost lines d))"

subsection \<open>A concrete database\<close>

text \<open>Scenario 1 of the spec: a recipe for two servings with two ingredient lines, and
  two instruction steps entered out of order.\<close>

definition demo_products :: "nat \<rightharpoonup> product" where
  "demo_products = [1 \<mapsto> \<lparr>standard_price = 20\<rparr>, 2 \<mapsto> \<lparr>standard_price = 4\<rparr>]"

definition demo_init :: db where
  "demo_init = \<lparr>recipes = [], ingredients = [], instructions = [],
                 products = demo_products, next_id = 1\<rparr>"

definition no_recipe_vals :: recipe_vals where
  "no_recipe_vals = \<lparr>r_name = None, r_category = None, r_prep_time = None,
                      r_serving_size = None, r_notes = None, r_active = None\<rparr>"

definition no_ingredient_vals :: ingredient_vals where
  "no_ingredient_vals = \<lparr>g_recipe_id = None, g_product_id = None, g_quantity = None,
                          g_uom_id = None\<rparr>"

definition demo_ops :: "op list" where
  "demo_ops =
     [CreateRecipe (no_recipe_vals\<lparr>r_name := Some ''Salmon Nigiri'',
                                   r_category := Some sushi, r_serving_size := Some 2\<rparr>),
      CreateIngredient \<lparr>g_recipe_id = Some 1, g_product_id = Some 1,
                        g_quantity = Some (2 / 10), g_uom_id = Some 1\<rparr>,
      CreateIngredient \<lparr>g_recipe_id = Some 1, g_product_id = Some 2,
                        g_quantity = Some (3 / 10), g_uom_id = Some 1\<rparr>,
      CreateInstruction \<lparr>s_recipe_id = Some 1, s_sequence = Some 20,
                         s_instruction = Some ''Slice the salmon''\<rparr>,
      CreateInstruction \<lparr>s_recipe_id = Some 1, s_sequence = Some 10,
                         s_instruction = Some ''Cook the rice''\<rparr>]"

definition demo_recipe :: "real \<Rightarrow> real \<Rightarrow> Recipe" where
  "demo_recipe tc cps =
     \<lparr>name = ''Salmon Nigiri'', category = sushi, prep_time = 0, serving_size = 2,
      Recipe.total_cost = tc, cost_per_serving = cps,
      recipe_notes = None, active = True\<rparr>"

definition demo_salmon :: RecipeIngredient where
  "demo_salmon = \<lparr>RecipeIngredient.recipe_id = 1, product_id = 1, quantity = 2 / 10,
                   uom_id = 1, unit_cost = 20, RecipeIngredient.total_cost = 4\<rparr>"

definition demo_rice :: RecipeIngredient where
  "demo_rice = \<lparr>RecipeIngredient.recipe_id = 1, product_id = 2, quantity = 3 / 10,
                 uom_id = 1, unit_cost = 4, RecipeIngredient.total_cost = 12 / 10\<rparr>"

definition demo_slice :: RecipeInstruction where
  "demo_slice = \<lparr>RecipeInstruction.recipe_id = 1, sequence = 20,
                  instruction = ''Slice the salmon''\<rparr>"

definition demo_cook :: RecipeInstruction where
  "demo_cook = \<lparr>RecipeInstruction.recipe_id = 1, sequence = 10,
                 instruction = ''Cook the rice''\<rparr>"

text \<open>The states after each of the five operations, the last being the database of
  the scenario.\<close>

definition demo_states :: "db list" where
  "demo_states =
     [\<lparr>recipes = [(1, demo_recipe 0 0)], ingredients = [], instructions = [],
       products = demo_products, next_id = 2\<rparr>,
      \<lparr>recipes = [(1, demo_recipe 4 2)], ingredients = [(2, demo_salmon)],
       instructions = [], products = demo_products, next_id = 3\<rparr>,
      \<lparr>recipes = [(1, demo_recipe (52 / 10) (26 / 10))],
       ingredients = [(2, demo_salmon), (3, demo_rice)],
       instructions = [], products = demo_products, next_id = 4\<rparr>,
      \<lparr>recipes = [(1, demo_recipe (52 / 10) (26 / 10))],
       ingredients = [(2, demo_salmon), (3, demo_rice)],
       instructions = [(4, demo_slice)], products = demo_products, next_id = 5\<rparr>]"

definition demo_db :: db where
  "demo_db =
     \<lparr>recipes = [(1, demo_recipe (52 / 10) (26 / 10))],
      ingredients = [(2, demo_salmon), (3, demo_rice)],
      instructions = [(4, demo_slice), (5, demo_cook)],
      products = demo_products, next_id = 6\<rparr>"

section \<open>Properties\<close>

subsection \<open>The compute loops in closed form\<close>

lemma map_id_pair: "map (\<lambda>(j, r). (j, r)) xs = xs"
  by (induction xs) auto

lemma fold_recipes_closed:
  assumes idem: "\<And>d j r. f d j (f d j r) = f d j r"
      and indep: "\<And>d x j r. f (d\<lparr>recipes := x\<rparr>) j r = f d j r"
  shows "fold (\<lambda>rid d. d\<lparr>recipes := set_row rid (f d rid) (recipes d)\<rparr>) self d =
         d\<lparr>recipes := map (\<lambda>(j, r). if j \<in> set self then (j, f d j r) else (j, r))
                          (recipes d)\<rparr>"
proof (induction self arbitrary: d)
  case Nil
  show ?case by (simp add: map_id_pair)
next
  case (Cons a self)
  let ?d' = "d\<lparr>recipes := set_row a (f d a) (recipes d)\<rparr>"
  have fe: "(\<lambda>(j, r). if j \<in> set self then (j, f ?d' j r) else (j, r)) =
            (\<lambda>(j, r). if j \<in> set self then (j, f d j r) else (j, r))"
    by (auto simp: fun_eq_iff indep)
  have "map (\<lambda>(j, r). if j \<in> set self then (j, f d j r) else (j, r))
          (set_row a (f d a) (recipes d))
      = map (\<lambda>(j, r). if j \<in> set (a # self) then (j, f d j r) else (j, r)) (recipes d)"
    by (auto simp: set_row_def idem)
  then show ?case by (simp add: Cons.IH fe)
qed

lemma fold_ingredients_closed:
  assumes idem: "\<And>d j g. f d j (f d j g) = f d j g"
      and indep: "\<And>d x j g. f (d\<lparr>ingredients := x\<rparr>) j g = f d j g"
  shows "fold (\<lambda>i d. d\<lparr>ingredients := set_row i (f d i) (ingredients d)\<rparr>) self d =
         d\<lparr>ingredients := map (\<lambda>(j, g). if j \<in> set self then (j, f d j g) else (j, g))
                              (ingredients d)\<rparr>"
proof (induction self arbitrary: d)
  case Nil
  show ?case by (simp add: map_id_pair)
next
  case (Cons a self)
  let ?d' = "d\<lparr>ingredients := set_row a (f d a) (ingredients d)\<rparr>"
  have fe: "(\<lambda>(j, g). if j \<in> set self then (j, f ?d' j g) else (j, g)) =
            (\<lambda>(j, g). if j \<in> set self then (j, f d j g) else (j, g))"
    by (auto simp: fun_eq_iff indep)
  have "map (\<lambda>(j, g). if j \<in> set self then (j, f d j g) else (j, g))
          (set_row a (f d a) (ingredients d))
      = map (\<lambda>(j, g). if j \<in> set (a # self) then (j, f d j g) else (j, g)) (ingredients d)"
    by (auto simp: set_row_def idem)
  then show ?case by (simp add: Cons.IH fe)
qed

lemma Recipe_compute_total_cost_closed:
  "Recipe_compute_total_cost self d =
     d\<lparr>recipes := map (\<lambda>(j, r). if j \<in> set self
          then (j, r\<lparr>Recipe.total_cost :=
                       py_sum (map RecipeIngredient.total_cost (ingredient_ids d j))\<rparr>)
          else (j, r)) (recipes d)\<rparr>"
  unfolding Recipe_compute_total_cost_def
  by (rule fold_recipes_closed [where f = "\<lambda>d j r. r\<lparr>Recipe.total_cost :=
            py_sum (map RecipeIngredient.total_cost (ingredient_ids d j))\<rparr>"])
     (simp_all add: ingredient_ids_def)

lemma Recipe_compute_cost_per_serving_closed:
  "Recipe_compute_cost_per_serving self d =
     d\<lparr>recipes := map (\<lambda>(j, r). if j \<in> set self
          then (j, if serving_size r > 0
                then r\<lparr>cost_per_serving := Recipe.total_cost r / of_int (serving_size r)\<rparr>
                else r\<lparr>cost_per_serving := 0\<rparr>)
          else (j, r)) (recipes d)\<rparr>"
  unfolding Recipe_compute_cost_per_serving_def
  by (rule fold_recipes_closed [where f = "\<lambda>d j r. if serving_size r > 0
                then r\<lparr>cost_per_serving := Recipe.total_cost r / of_int (serving_size r)\<rparr>
                else r\<lparr>cost_per_serving := 0\<rparr>"])
     simp_all

lemma RecipeIngredient_compute_total_cost_closed:
  "RecipeIngredient_compute_total_cost self d =
     d\<lparr>ingredients := map (\<lambda>(j, g). if j \<in> set self
          then (j, g\<lparr>RecipeIngredient.total_cost := quantity g * unit_cost g\<rparr>)
          else (j, g)) (ingredients d)\<rparr>"
  unfolding RecipeIngredient_compute_total_cost_def
  by (rule fold_ingredients_closed [where f = "\<lambda>d j g.
            g\<lparr>RecipeIngredient.total_cost := quantity g * unit_cost g\<rparr>"])
     simp_all

lemma RecipeIngredient_compute_unit_cost_closed:
  "RecipeIngredient_compute_unit_cost self d =
     d\<lparr>ingredients := map (\<lambda>(j, g). if j \<in> set self
          then (j, g\<lparr>unit_cost := (case products d (product_id g) of
                                      None \<Rightarrow> 0 | Some p \<Rightarrow> standard_price p)\<rparr>)
          else (j, g)) (ingredients d)\<rparr>"
  unfolding RecipeIngredient_compute_unit_cost_def
  by (rule fold_ingredients_closed [where f = "\<lambda>d j g.
            g\<lparr>unit_cost := (case products d (product_id g) of
                               None \<Rightarrow> 0 | Some p \<Rightarrow> standard_price p)\<rparr>"])
     simp_all

lemmas compute_closed =
  Recipe_compute_total_cost_closed Recipe_compute_cost_per_serving_closed
  RecipeIngredient_compute_total_cost_closed RecipeIngredient_compute_unit_cost_closed

subsection \<open>The concrete database is reachable\<close>

lemmas demo_defs = demo_init_def demo_ops_def demo_states_def demo_db_def demo_recipe_def
  demo_salmon_def demo_rice_def demo_slice_def demo_cook_def no_recipe_vals_def

lemmas eval_defs = compute_closed or_else_def browse_def owners_def ids_of_def
  new_recipe_def new_ingredient_def
  ingredient_ids_def py_sum_def Let_def

lemma demo_step1: "execute (demo_ops ! 0) demo_init = Inr (demo_states ! 0)"
  by (simp add: demo_defs create_recipe_def eval_defs)

lemma demo_step2: "execute (demo_ops ! 1) (demo_states ! 0) = Inr (demo_states ! 1)"
  by (simp add: demo_defs create_ingredient_def eval_defs demo_products_def del: set_filter)

lemma demo_step3: "execute (demo_ops ! 2) (demo_states ! 1) = Inr (demo_states ! 2)"
  by (simp add: demo_defs create_ingredient_def eval_defs demo_products_def del: set_filter)

lemma demo_step4: "execute (demo_ops ! 3) (demo_states ! 2) = Inr (demo_states ! 3)"
  by (simp add: demo_defs create_instruction_def eval_defs)

lemma demo_step5: "execute (demo_ops ! 4) (demo_states ! 3) = Inr demo_db"
  by (simp add: demo_defs create_instruction_def eval_defs)

lemma reachable_demo_db: "reachable demo_db"
proof -
  have "reachable demo_init"
    unfolding demo_init_def by (rule reachable.init)
  from reachable.step [OF this demo_step1] reachable.step [OF _ demo_step2]
    reachable.step [OF _ demo_step3] reachable.step [OF _ demo_step4]
    reachable.step [OF _ demo_step5]
  show ?thesis by blast
qed

subsection \<open>Cost per serving\<close>

text \<open>
  C3. For every recipe that \<^verbatim>\<open>_compute_cost_per_serving\<close> has recomputed,
  \<open>cost_per_serving\<close> equals \<open>total_cost / serving_size\<close> when \<open>serving_size > 0\<close> and
  equals 0 when \<open>serving_size \<le> 0\<close>; the method leaves \<open>total_cost\<close> and \<open>serving_size\<close>
  as they were.
\<close>

theorem cost_per_serving_after_recompute:
  assumes "(rid, r) \<in> set (recipes (Recipe_compute_cost_per_serving self d))"
      and "rid \<in> set self"
  shows "(0 < serving_size r \<longrightarrow>
            cost_per_serving r = Recipe.total_cost r / of_int (serving_size r))
       \<and> (serving_size r \<le> 0 \<longrightarrow> cost_per_serving r = 0)
       \<and> (\<exists>r0. (rid, r0) \<in> set (recipes d) \<and> serving_size r = serving_size r0
              \<and> Recipe.total_cost r = Recipe.total_cost r0)"
  using assms
  by (auto simp: Recipe_compute_cost_per_serving_closed split: if_splits)

theorem cost_per_serving_after_recompute_witness:
  "(1, demo_recipe (52 / 10) (26 / 10))
     \<in> set (recipes (Recipe_compute_cost_per_serving [1]
                       (demo_db\<lparr>recipes := [(1, demo_recipe (52 / 10) 0)]\<rparr>)))
   \<and> 1 \<in> set [1::nat]
   \<and> 0 < serving_size (demo_recipe (52 / 10) (26 / 10))
   \<and> cost_per_serving (demo_recipe (52 / 10) (26 / 10)) =
       Recipe.total_cost (demo_recipe (52 / 10) (26 / 10))
         / of_int (serving_size (demo_recipe (52 / 10) (26 / 10)))"
proof -
  have h1: "(1, demo_recipe (52 / 10) (26 / 10))
     \<in> set (recipes (Recipe_compute_cost_per_serving [1]
                       (demo_db\<lparr>recipes := [(1, demo_recipe (52 / 10) 0)]\<rparr>)))"
    by (simp add: Recipe_compute_cost_per_serving_closed demo_recipe_def)
  have h2: "1 \<in> set [1::nat]"
    by simp
  have h3: "0 < serving_size (demo_recipe (52 / 10) (26 / 10))"
    by (simp add: demo_recipe_def)
  from cost_per_serving_after_recompute [OF h1 h2] h1 h2 h3 show ?thesis
    by blast
qed

text \<open>The branch for a serving size that is not positive, on a row that no write could
  have stored.\<close>

lemma cost_per_serving_of_zero_servings:
  "recipes (Recipe_compute_cost_per_serving [1]
             (demo_db\<lparr>recipes := [(1, (demo_recipe 5 7)\<lparr>serving_size := 0\<rparr>)]\<rparr>))
   = [(1, (demo_recipe 5 0)\<lparr>serving_size := 0\<rparr>)]"
  by (simp add: Recipe_compute_cost_per_serving_closed demo_recipe_def)

subsection \<open>Idempotence of recomputation\<close>

lemma map_map_idem:
  "(\<And>x. x \<in> set xs \<Longrightarrow> g (f x) = f x) \<Longrightarrow> map g (map f xs) = map f xs"
  by (induction xs) auto

lemma ingredient_ids_recipes_update [simp]:
  "ingredient_ids (d\<lparr>recipes := x\<rparr>) = ingredient_ids d"
  by (simp add: ingredient_ids_def fun_eq_iff)

lemma ingredient_total_cost_idem:
  "RecipeIngredient_compute_total_cost self (RecipeIngredient_compute_total_cost self d)
     = RecipeIngredient_compute_total_cost self d"
proof -
  let ?F = "\<lambda>(j, g). if j \<in> set self
          then (j, g\<lparr>RecipeIngredient.total_cost := quantity g * unit_cost g\<rparr>)
          else (j, g)"
  have "map ?F (map ?F (ingredients d)) = map ?F (ingredients d)"
    by (rule map_map_idem) auto
  then show ?thesis
    by (simp add: RecipeIngredient_compute_total_cost_closed del: map_map)
qed

lemma recipe_total_cost_idem:
  "Recipe_compute_total_cost self (Recipe_compute_total_cost self d)
     = Recipe_compute_total_cost self d"
proof -
  let ?F = "\<lambda>(j, r). if j \<in> set self
          then (j, r\<lparr>Recipe.total_cost :=
                       py_sum (map RecipeIngredient.total_cost (ingredient_ids d j))\<rparr>)
          else (j, r)"
  have "map ?F (map ?F (recipes d)) = map ?F (recipes d)"
    by (rule map_map_idem) auto
  then show ?thesis
    by (simp add: Recipe_compute_total_cost_closed del: map_map cong: if_cong prod.case_cong)
qed

lemma cost_per_serving_idem:
  "Recipe_compute_cost_per_serving self (Recipe_compute_cost_per_serving self d)
     = Recipe_compute_cost_per_serving self d"
proof -
  let ?F = "\<lambda>(j, r). if j \<in> set self
          then (j, if serving_size r > 0
                then r\<lparr>cost_per_serving := Recipe.total_cost r / of_int (serving_size r)\<rparr>
                else r\<lparr>cost_per_serving := 0\<rparr>)
          else (j, r)"
  have "map ?F (map ?F (recipes d)) = map ?F (recipes d)"
    by (rule map_map_idem) auto
  then show ?thesis
    by (simp add: Recipe_compute_cost_per_serving_closed del: map_map)
qed


lemma ingredient_total_cost_frame [simp]:
  "recipes (RecipeIngredient_compute_total_cost self d) = recipes d"
  "instructions (RecipeIngredient_compute_total_cost self d) = instructions d"
  "products (RecipeIngredient_compute_total_cost self d) = products d"
  "next_id (RecipeIngredient_compute_total_cost self d) = next_id d"
  by (simp_all add: RecipeIngredient_compute_total_cost_closed)

lemma ingredient_ids_ingredients_cong:
  "ingredients d' = ingredients d \<Longrightarrow> ingredient_ids d' = ingredient_ids d"
  by (simp add: ingredient_ids_def fun_eq_iff)

lemma recompute_chain_idem:
  "recompute lines rs (recompute lines rs d) = recompute lines rs d"
proof -
  let ?F = "\<lambda>(j, g). if j \<in> set lines
          then (j, g\<lparr>RecipeIngredient.total_cost := quantity g * unit_cost g\<rparr>)
          else (j, g)"
  let ?d1 = "RecipeIngredient_compute_total_cost lines d"
  let ?G = "\<lambda>(j, r). if j \<in> set rs
          then (j, r\<lparr>Recipe.total_cost :=
                       py_sum (map RecipeIngredient.total_cost (ingredient_ids ?d1 j))\<rparr>)
          else (j, r)"
  let ?H = "\<lambda>(j, r). if j \<in> set rs
          then (j, if serving_size r > 0
                then r\<lparr>cost_per_serving := Recipe.total_cost r / of_int (serving_size r)\<rparr>
                else r\<lparr>cost_per_serving := 0\<rparr>)
          else (j, r)"
  let ?d3 = "recompute lines rs d"
  have ing3: "ingredients ?d3 = map ?F (ingredients d)"
    by (simp add: recompute_def compute_closed)
  have rec3: "recipes ?d3 = map ?H (map ?G (recipes d))"
    by (simp add: recompute_def Recipe_compute_cost_per_serving_closed
          Recipe_compute_total_cost_closed del: map_map)
  have FF: "map ?F (map ?F (ingredients d)) = map ?F (ingredients d)"
    by (rule map_map_idem) auto
  have a: "RecipeIngredient_compute_total_cost lines ?d3 = ?d3"
    by (simp add: RecipeIngredient_compute_total_cost_closed [of lines ?d3] ing3 FF
          del: map_map)
  have ids3: "ingredient_ids ?d3 = ingredient_ids ?d1"
    by (rule ingredient_ids_ingredients_cong)
       (simp add: ing3 RecipeIngredient_compute_total_cost_closed)
  have HG: "map ?H (map ?G (map ?H (map ?G (recipes d)))) = map ?H (map ?G (recipes d))"
  proof -
    have "map ?H (map ?G (map ?H (map ?G (recipes d))))
        = map (?H \<circ> ?G) (map (?H \<circ> ?G) (recipes d))"
      by simp
    also have "\<dots> = map (?H \<circ> ?G) (recipes d)"
      by (rule map_map_idem) auto
    finally show ?thesis by simp
  qed
  have "Recipe_compute_total_cost rs ?d3 = ?d3\<lparr>recipes := map ?G (recipes ?d3)\<rparr>"
    by (simp add: Recipe_compute_total_cost_closed [of rs ?d3] ids3
          cong: if_cong prod.case_cong)
  then have "Recipe_compute_cost_per_serving rs (Recipe_compute_total_cost rs ?d3)
      = ?d3\<lparr>recipes := map ?H (map ?G (recipes ?d3))\<rparr>"
    by (simp add: Recipe_compute_cost_per_serving_closed del: map_map)
  also have "\<dots> = ?d3\<lparr>recipes := recipes ?d3\<rparr>"
    by (simp only: rec3 HG)
  also have "\<dots> = ?d3"
    by simp
  finally have b: "Recipe_compute_cost_per_serving rs (Recipe_compute_total_cost rs ?d3) = ?d3" .
  show ?thesis
    using a b by (simp add: recompute_def [of lines rs ?d3])
qed

text \<open>
  C8. Recomputation is idempotent: each of the three compute methods, and the three run
  in dependency order, gives the same database when run a second time on the result of
  the first run, for every database and every record set.
\<close>

theorem recompute_idempotent:
  "RecipeIngredient_compute_total_cost lines (RecipeIngredient_compute_total_cost lines d)
     = RecipeIngredient_compute_total_cost lines d
   \<and> Recipe_compute_total_cost rs (Recipe_compute_total_cost rs d)
     = Recipe_compute_total_cost rs d
   \<and> Recipe_compute_cost_per_serving rs (Recipe_compute_cost_per_serving rs d)
     = Recipe_compute_cost_per_serving rs d
   \<and> recompute lines rs (recompute lines rs d) = recompute lines rs d"
  by (simp only: ingredient_total_cost_idem recipe_total_cost_idem cost_per_serving_idem
        recompute_chain_idem simp_thms)

subsection \<open>Validation of the serving size\<close>

lemma check_serving_size_fails:
  "\<exists>r \<in> set rs. serving_size r \<le> 0 \<Longrightarrow>
   Recipe_check_serving_size rs = Inl (ValidationError ''Serving size must be greater than 0'')"
  by (induction rs) auto

lemma check_serving_size_passes:
  "\<forall>r \<in> set rs. 0 < serving_size r \<Longrightarrow> Recipe_check_serving_size rs = Inr ()"
  by (induction rs) auto

lemma set_browse: "set (browse ids tbl) = {r. \<exists>j \<in> set ids. (j, r) \<in> set tbl}"
  by (force simp: browse_def)

lemma cost_per_serving_recipes:
  "recipes (Recipe_compute_cost_per_serving self d) =
     map (\<lambda>(j, r). if j \<in> set self
          then (j, if serving_size r > 0
                then r\<lparr>cost_per_serving := Recipe.total_cost r / of_int (serving_size r)\<rparr>
                else r\<lparr>cost_per_serving := 0\<rparr>)
          else (j, r)) (recipes d)"
  by (simp add: Recipe_compute_cost_per_serving_closed)

lemma serving_size_write_vals:
  "serving_size (recipe_write_vals vals r) = or_else (r_serving_size vals) (serving_size r)"
  by (simp add: recipe_write_vals_def)

lemma write_recipe_rejects:
  assumes "ids \<noteq> []" and "exists_ids ids (recipes d)"
      and "r_serving_size vals = Some v" and "v \<le> 0"
  shows "write_recipe ids vals d =
           Inl (ValidationError ''Serving size must be greater than 0'')"
proof -
  from assms(1) obtain i where i: "i \<in> set ids"
    by (cases ids) auto
  with assms(2) obtain r where r: "(i, r) \<in> set (recipes d)"
    by (auto simp: exists_ids_def ids_of_def list_all_iff)
  let ?d1 = "d\<lparr>recipes := map_rows ids (recipe_write_vals vals) (recipes d)\<rparr>"
  let ?r' = "(recipe_write_vals vals r)\<lparr>cost_per_serving := 0\<rparr>"
  have sz: "serving_size (recipe_write_vals vals r) = v"
    by (simp add: serving_size_write_vals assms(3) or_else_def)
  have "(i, recipe_write_vals vals r) \<in> set (recipes ?d1)"
    using r i by (force simp: map_rows_def)
  then have "(i, ?r') \<in> set (recipes (Recipe_compute_cost_per_serving ids ?d1))"
    using i sz assms(4) unfolding cost_per_serving_recipes by force
  then have "\<exists>x \<in> set (browse ids (recipes (Recipe_compute_cost_per_serving ids ?d1))).
               serving_size x \<le> 0"
    using i sz assms(4) unfolding set_browse by force
  then have "Recipe_check_serving_size
               (browse ids (recipes (Recipe_compute_cost_per_serving ids ?d1)))
             = Inl (ValidationError ''Serving size must be greater than 0'')"
    by (rule check_serving_size_fails)
  then show ?thesis
    using assms(2,3) by (simp add: write_recipe_def Let_def)
qed


lemma total_cost_recipes:
  "recipes (Recipe_compute_total_cost self d) =
     map (\<lambda>(j, r). if j \<in> set self
          then (j, r\<lparr>Recipe.total_cost :=
                       py_sum (map RecipeIngredient.total_cost (ingredient_ids d j))\<rparr>)
          else (j, r)) (recipes d)"
  by (simp add: Recipe_compute_total_cost_closed)

lemma in_map_rows:
  "(j, r') \<in> set (map (\<lambda>(j, r). if P j then (j, f j r) else (j, r)) tbl) \<longleftrightarrow>
   (\<exists>r. (j, r) \<in> set tbl \<and> r' = (if P j then f j r else r))"
proof (induction tbl)
  case Nil
  show ?case by simp
next
  case (Cons x tbl)
  obtain k r0 where x: "x = (k, r0)" by (cases x)
  show ?case
    unfolding x using Cons.IH by (cases "P k"; cases "P j") auto
qed

lemma cost_per_serving_row:
  "(j, r') \<in> set (recipes (Recipe_compute_cost_per_serving self d)) \<longleftrightarrow>
   (\<exists>r. (j, r) \<in> set (recipes d) \<and>
        r' = (if j \<in> set self
              then (if serving_size r > 0
                    then r\<lparr>cost_per_serving := Recipe.total_cost r / of_int (serving_size r)\<rparr>
                    else r\<lparr>cost_per_serving := 0\<rparr>)
              else r))"
  unfolding cost_per_serving_recipes
  by (rule in_map_rows [where P = "\<lambda>j. j \<in> set self" and f = "\<lambda>j r. if serving_size r > 0
                    then r\<lparr>cost_per_serving := Recipe.total_cost r / of_int (serving_size r)\<rparr>
                    else r\<lparr>cost_per_serving := 0\<rparr>"])

lemma total_cost_row:
  "(j, r') \<in> set (recipes (Recipe_compute_total_cost self d)) \<longleftrightarrow>
   (\<exists>r. (j, r) \<in> set (recipes d) \<and>
        r' = (if j \<in> set self
              then r\<lparr>Recipe.total_cost :=
                     py_sum (map RecipeIngredient.total_cost (ingredient_ids d j))\<rparr>
              else r))"
  unfolding total_cost_recipes
  by (rule in_map_rows [where P = "\<lambda>j. j \<in> set self" and f = "\<lambda>j r. r\<lparr>Recipe.total_cost :=
                     py_sum (map RecipeIngredient.total_cost (ingredient_ids d j))\<rparr>"])


lemma recomputed_row_fields:
  assumes "(j, r') \<in> set (recipes (Recipe_compute_cost_per_serving s1
                                      (Recipe_compute_total_cost s2 d)))"
  shows "\<exists>r. (j, r) \<in> set (recipes d) \<and> serving_size r' = serving_size r
            \<and> prep_time r' = prep_time r"
proof -
  from assms obtain r1 where r1: "(j, r1) \<in> set (recipes (Recipe_compute_total_cost s2 d))"
    and e1: "serving_size r' = serving_size r1" "prep_time r' = prep_time r1"
    unfolding cost_per_serving_row by (auto split: if_splits)
  from r1 obtain r where "(j, r) \<in> set (recipes d)"
    and "serving_size r1 = serving_size r" "prep_time r1 = prep_time r"
    unfolding total_cost_row by (auto split: if_splits)
  with e1 show ?thesis by auto
qed

lemma recomputed_row_exists:
  assumes "(j, r) \<in> set (recipes d)"
  shows "\<exists>r'. (j, r') \<in> set (recipes (Recipe_compute_cost_per_serving s1
                                           (Recipe_compute_total_cost s2 d)))
             \<and> serving_size r' = serving_size r \<and> prep_time r' = prep_time r"
proof -
  let ?r1 = "if j \<in> set s2
             then r\<lparr>Recipe.total_cost :=
                     py_sum (map RecipeIngredient.total_cost (ingredient_ids d j))\<rparr>
             else r"
  let ?r2 = "if j \<in> set s1
             then (if serving_size ?r1 > 0
                   then ?r1\<lparr>cost_per_serving :=
                           Recipe.total_cost ?r1 / of_int (serving_size ?r1)\<rparr>
                   else ?r1\<lparr>cost_per_serving := 0\<rparr>)
             else ?r1"
  have "(j, ?r1) \<in> set (recipes (Recipe_compute_total_cost s2 d))"
    unfolding total_cost_row using assms by blast
  then have "(j, ?r2) \<in> set (recipes (Recipe_compute_cost_per_serving s1
                                           (Recipe_compute_total_cost s2 d)))"
    unfolding cost_per_serving_row [of j _ s1] by blast
  moreover have "serving_size ?r2 = serving_size r" "prep_time ?r2 = prep_time r"
    by simp_all
  ultimately show ?thesis by blast
qed


lemma create_recipe_rejects:
  assumes "r_name vals = Some n" and "r_serving_size vals = Some v" and "v \<le> 0"
  shows "create_recipe vals d =
           Inl (ValidationError ''Serving size must be greater than 0'')"
proof -
  let ?rid = "next_id d"
  let ?d1 = "d\<lparr>recipes := recipes d @ [(?rid, new_recipe n vals)], next_id := Suc ?rid\<rparr>"
  let ?d3 = "Recipe_compute_cost_per_serving [?rid] (Recipe_compute_total_cost [?rid] ?d1)"
  have "(?rid, new_recipe n vals) \<in> set (recipes ?d1)"
    by simp
  from recomputed_row_exists [OF this, of "[?rid]" "[?rid]"]
  obtain r' where "(?rid, r') \<in> set (recipes ?d3)"
    and "serving_size r' = serving_size (new_recipe n vals)"
    by blast
  moreover have "serving_size (new_recipe n vals) = v"
    by (simp add: new_recipe_def assms(2) or_else_def)
  ultimately have "\<exists>x \<in> set (browse [?rid] (recipes ?d3)). serving_size x \<le> 0"
    using assms(3) unfolding set_browse by force
  then have "Recipe_check_serving_size (browse [?rid] (recipes ?d3))
             = Inl (ValidationError ''Serving size must be greater than 0'')"
    by (rule check_serving_size_fails)
  then show ?thesis
    using assms(1) by (simp add: create_recipe_def Let_def)
qed

lemma create_recipe_default_accepted:
  assumes "r_name vals = Some n" and "r_serving_size vals = None"
      and "next_id d \<notin> set (ids_of (recipes d))"
  shows "\<exists>d'. create_recipe vals d = Inr d'
           \<and> browse [next_id d] (recipes d') \<noteq> []
           \<and> (\<forall>r \<in> set (browse [next_id d] (recipes d')). serving_size r = 1)"
proof -
  let ?rid = "next_id d"
  let ?d1 = "d\<lparr>recipes := recipes d @ [(?rid, new_recipe n vals)], next_id := Suc ?rid\<rparr>"
  let ?d3 = "Recipe_compute_cost_per_serving [?rid] (Recipe_compute_total_cost [?rid] ?d1)"
  have sz: "serving_size (new_recipe n vals) = 1"
    by (simp add: new_recipe_def assms(2) or_else_def)
  have all: "\<forall>r \<in> set (browse [?rid] (recipes ?d3)). serving_size r = 1"
  proof
    fix r' assume "r' \<in> set (browse [?rid] (recipes ?d3))"
    then have "(?rid, r') \<in> set (recipes ?d3)"
      unfolding set_browse by simp
    from recomputed_row_fields [OF this]
    obtain r where r: "(?rid, r) \<in> set (recipes ?d1)"
      and e: "serving_size r' = serving_size r"
      by blast
    from r assms(3) have "r = new_recipe n vals"
      by (force simp: ids_of_def)
    with e sz show "serving_size r' = 1" by simp
  qed
  have "(?rid, new_recipe n vals) \<in> set (recipes ?d1)"
    by simp
  from recomputed_row_exists [OF this, of "[?rid]" "[?rid]"]
  have ne: "browse [?rid] (recipes ?d3) \<noteq> []"
    unfolding set_empty [symmetric] set_browse by force
  from all have "Recipe_check_serving_size (browse [?rid] (recipes ?d3)) = Inr ()"
    by (intro check_serving_size_passes) simp
  then have "create_recipe vals d = Inr ?d3"
    using assms(1) by (simp add: create_recipe_def Let_def)
  with all ne show ?thesis by blast
qed


text \<open>
  C1. A write that sets \<open>serving_size\<close> to a value \<open>\<le> 0\<close> on a non-empty set of existing
  recipes fails with the validation error of \<^verbatim>\<open>_check_serving_size\<close>, and so does a
  creation with such a value; in both cases the transaction leaves the database, and
  with it every stored \<open>serving_size\<close> and derived field, exactly as it was.
\<close>

theorem nonpositive_serving_size_rejected:
  assumes "r_serving_size vals = Some v" and "v \<le> 0"
  shows "(ids \<noteq> [] \<and> exists_ids ids (recipes d) \<longrightarrow>
            write_recipe ids vals d =
              Inl (ValidationError ''Serving size must be greater than 0'')
          \<and> transaction (WriteRecipe ids vals) d =
              (d, Some (ValidationError ''Serving size must be greater than 0'')))
       \<and> (r_name vals \<noteq> None \<longrightarrow>
            create_recipe vals d =
              Inl (ValidationError ''Serving size must be greater than 0'')
          \<and> transaction (CreateRecipe vals) d =
              (d, Some (ValidationError ''Serving size must be greater than 0'')))"
  using write_recipe_rejects [OF _ _ assms, of ids d]
        create_recipe_rejects [OF _ assms, of _ d]
  by (auto simp: transaction_def)

theorem nonpositive_serving_size_rejected_witness:
  "r_serving_size (no_recipe_vals\<lparr>r_serving_size := Some 0\<rparr>) = Some 0
   \<and> (0::int) \<le> 0 \<and> [1::nat] \<noteq> [] \<and> exists_ids [1] (recipes demo_db)
   \<and> write_recipe [1] (no_recipe_vals\<lparr>r_serving_size := Some 0\<rparr>) demo_db =
        Inl (ValidationError ''Serving size must be greater than 0'')
   \<and> transaction (WriteRecipe [1] (no_recipe_vals\<lparr>r_serving_size := Some 0\<rparr>)) demo_db =
        (demo_db, Some (ValidationError ''Serving size must be greater than 0''))"
proof -
  have h1: "r_serving_size (no_recipe_vals\<lparr>r_serving_size := Some 0\<rparr>) = Some 0"
    by simp
  have h2: "(0::int) \<le> 0"
    by simp
  have h3: "[1::nat] \<noteq> [] \<and> exists_ids [1] (recipes demo_db)"
    by (simp add: exists_ids_def ids_of_def demo_db_def)
  from nonpositive_serving_size_rejected [OF h1 h2, of "[1]" demo_db] h1 h2 h3
  show ?thesis by blast
qed

text \<open>
  C10. A recipe created without a \<open>serving_size\<close> gets the default 1: when the id
  counter is fresh, the creation never raises the serving-size validation error, and
  when a name is given it succeeds and the new record has \<open>serving_size = 1\<close>.
\<close>

theorem default_serving_size_accepted:
  assumes "r_serving_size vals = None"
      and "next_id d \<notin> set (ids_of (recipes d))"
  shows "create_recipe vals d \<noteq> Inl (ValidationError ''Serving size must be greater than 0'')
       \<and> (r_name vals \<noteq> None \<longrightarrow>
            (\<exists>d'. create_recipe vals d = Inr d'
               \<and> browse [next_id d] (recipes d') \<noteq> []
               \<and> (\<forall>r \<in> set (browse [next_id d] (recipes d')). serving_size r = 1)))"
proof (cases "r_name vals")
  case None
  then show ?thesis by (simp add: create_recipe_def)
next
  case (Some n)
  from create_recipe_default_accepted [OF Some assms] Some
  show ?thesis by auto
qed

theorem default_serving_size_accepted_witness:
  "r_serving_size (no_recipe_vals\<lparr>r_name := Some ''Miso Soup''\<rparr>) = None
   \<and> next_id demo_db \<notin> set (ids_of (recipes demo_db))
   \<and> r_name (no_recipe_vals\<lparr>r_name := Some ''Miso Soup''\<rparr>) \<noteq> None
   \<and> (\<exists>d'. create_recipe (no_recipe_vals\<lparr>r_name := Some ''Miso Soup''\<rparr>) demo_db = Inr d'
         \<and> browse [next_id demo_db] (recipes d') \<noteq> []
         \<and> (\<forall>r \<in> set (browse [next_id demo_db] (recipes d')). serving_size r = 1))"
proof -
  have h1: "r_serving_size (no_recipe_vals\<lparr>r_name := Some ''Miso Soup''\<rparr>) = None"
    by (simp add: no_recipe_vals_def)
  have h2: "next_id demo_db \<notin> set (ids_of (recipes demo_db))"
    by (simp add: demo_db_def ids_of_def)
  have h3: "r_name (no_recipe_vals\<lparr>r_name := Some ''Miso Soup''\<rparr>) \<noteq> None"
    by simp
  from default_serving_size_accepted [OF h1 h2] h1 h2 h3
  show ?thesis by blast
qed

subsection \<open>Preparation time\<close>

lemma map_rows_row:
  "(j, r') \<in> set (map_rows ids f tbl) \<longleftrightarrow>
   (\<exists>r. (j, r) \<in> set tbl \<and> r' = (if j \<in> set ids then f r else r))"
  unfolding map_rows_def
  by (rule in_map_rows [where P = "\<lambda>j. j \<in> set ids" and f = "\<lambda>j. f"])

lemma prep_time_write_vals:
  "prep_time (recipe_write_vals vals r) = or_else (r_prep_time vals) (prep_time r)"
  by (simp add: recipe_write_vals_def)

lemma ids_of_map_rows: "ids_of (map_rows ids f tbl) = ids_of tbl"
  by (auto simp: ids_of_def map_rows_def)

lemma write_recipe_prep_time:
  assumes ex: "exists_ids ids (recipes d)"
      and sz: "\<forall>v. r_serving_size vals = Some v \<longrightarrow> 0 < v"
      and pt: "r_prep_time vals = Some p"
  shows "\<exists>d'. write_recipe ids vals d = Inr d'
           \<and> ids_of (recipes d') = ids_of (recipes d)
           \<and> (\<forall>(j, r') \<in> set (recipes d'). j \<in> set ids \<longrightarrow> prep_time r' = p)"
proof (cases "r_serving_size vals")
  case None
  let ?d1 = "d\<lparr>recipes := map_rows ids (recipe_write_vals vals) (recipes d)\<rparr>"
  have w: "write_recipe ids vals d = Inr ?d1"
    using ex None by (simp add: write_recipe_def Let_def)
  have "\<forall>(j, r') \<in> set (recipes ?d1). j \<in> set ids \<longrightarrow> prep_time r' = p"
    by (auto simp: map_rows_row prep_time_write_vals pt or_else_def)
  moreover have "ids_of (recipes ?d1) = ids_of (recipes d)"
    by (simp add: ids_of_map_rows)
  ultimately show ?thesis using w by blast
next
  case (Some v)
  with sz have v: "0 < v" by simp
  let ?d1 = "d\<lparr>recipes := map_rows ids (recipe_write_vals vals) (recipes d)\<rparr>"
  let ?d2 = "Recipe_compute_cost_per_serving ids ?d1"
  have row: "prep_time r' = p \<and> serving_size r' = v"
    if "(j, r') \<in> set (recipes ?d2)" and "j \<in> set ids" for j r'
  proof -
    from that obtain r1 where r1: "(j, r1) \<in> set (recipes ?d1)"
      and e1: "prep_time r' = prep_time r1" "serving_size r' = serving_size r1"
      unfolding cost_per_serving_row by (auto split: if_splits)
    from r1 that(2) obtain r where "r1 = recipe_write_vals vals r"
      by (auto simp: map_rows_row)
    with e1 show ?thesis
      by (simp add: prep_time_write_vals serving_size_write_vals pt Some or_else_def)
  qed
  have "\<forall>r \<in> set (browse ids (recipes ?d2)). 0 < serving_size r"
    unfolding set_browse using row v by auto
  then have "Recipe_check_serving_size (browse ids (recipes ?d2)) = Inr ()"
    by (rule check_serving_size_passes)
  then have w: "write_recipe ids vals d = Inr ?d2"
    using ex Some by (simp add: write_recipe_def Let_def)
  have "ids_of (recipes ?d2) = ids_of (recipes ?d1)"
    by (auto simp: ids_of_def cost_per_serving_recipes)
  then have "ids_of (recipes ?d2) = ids_of (recipes d)"
    by (simp add: ids_of_map_rows)
  moreover have "\<forall>(j, r') \<in> set (recipes ?d2). j \<in> set ids \<longrightarrow> prep_time r' = p"
    using row by blast
  ultimately show ?thesis using w by blast
qed

lemma create_recipe_prep_time:
  assumes nm: "r_name vals = Some n"
      and sz: "\<forall>v. r_serving_size vals = Some v \<longrightarrow> 0 < v"
      and fresh: "next_id d \<notin> set (ids_of (recipes d))"
  shows "\<exists>d'. create_recipe vals d = Inr d'
           \<and> browse [next_id d] (recipes d') \<noteq> []
           \<and> (\<forall>r \<in> set (browse [next_id d] (recipes d')).
                 prep_time r = (case r_prep_time vals of None \<Rightarrow> 0 | Some p \<Rightarrow> p))"
proof -
  let ?rid = "next_id d"
  let ?d1 = "d\<lparr>recipes := recipes d @ [(?rid, new_recipe n vals)], next_id := Suc ?rid\<rparr>"
  let ?d3 = "Recipe_compute_cost_per_serving [?rid] (Recipe_compute_total_cost [?rid] ?d1)"
  have szn: "0 < serving_size (new_recipe n vals)"
    using sz by (cases "r_serving_size vals") (simp_all add: new_recipe_def or_else_def)
  have ptn: "prep_time (new_recipe n vals) = (case r_prep_time vals of None \<Rightarrow> 0 | Some p \<Rightarrow> p)"
    by (simp add: new_recipe_def or_else_def split: option.splits)
  have row: "serving_size r' = serving_size (new_recipe n vals)
           \<and> prep_time r' = prep_time (new_recipe n vals)"
    if "r' \<in> set (browse [?rid] (recipes ?d3))" for r'
  proof -
    from that have "(?rid, r') \<in> set (recipes ?d3)"
      unfolding set_browse by simp
    from recomputed_row_fields [OF this]
    obtain r where r: "(?rid, r) \<in> set (recipes ?d1)"
      and e: "serving_size r' = serving_size r" "prep_time r' = prep_time r"
      by blast
    from r fresh have "r = new_recipe n vals"
      by (force simp: ids_of_def)
    with e show ?thesis by simp
  qed
  have "(?rid, new_recipe n vals) \<in> set (recipes ?d1)"
    by simp
  from recomputed_row_exists [OF this, of "[?rid]" "[?rid]"]
  have ne: "browse [?rid] (recipes ?d3) \<noteq> []"
    unfolding set_empty [symmetric] set_browse by force
  have "\<forall>r \<in> set (browse [?rid] (recipes ?d3)). 0 < serving_size r"
    using row szn by simp
  then have "Recipe_check_serving_size (browse [?rid] (recipes ?d3)) = Inr ()"
    by (rule check_serving_size_passes)
  then have "create_recipe vals d = Inr ?d3"
    using nm by (simp add: create_recipe_def Let_def)
  with row ptn ne show ?thesis by auto
qed

text \<open>
  The claim C9 as stated, that the stored \<open>prep_time\<close> is never negative, fails: the
  field is declared \<^verbatim>\<open>fields.Integer('Preparation Time (minutes)', default=0)\<close> and the
  only constraint of the model is on \<open>serving_size\<close>. Writing \<open>-5\<close> to the recipe of the
  scenario succeeds and stores \<open>-5\<close>.
\<close>

theorem prep_time_negative_counterexample:
  "execute (WriteRecipe [1] (no_recipe_vals\<lparr>r_prep_time := Some (- 5)\<rparr>)) demo_db =
     Inr (demo_db\<lparr>recipes := [(1, (demo_recipe (52 / 10) (26 / 10))\<lparr>prep_time := - 5\<rparr>)]\<rparr>)
   \<and> \<not> 0 \<le> prep_time ((demo_recipe (52 / 10) (26 / 10))\<lparr>prep_time := - 5\<rparr>)"
  by (simp add: write_recipe_def exists_ids_def ids_of_def demo_db_def map_rows_def
        recipe_write_vals_def no_recipe_vals_def or_else_def demo_recipe_def)

text \<open>
  C9, amended. \<open>prep_time\<close> is an integer that defaults to 0 when a recipe is created
  without it, and no lower bound is enforced. Whenever the values carry no
  \<open>serving_size\<close> or a positive one, a write of \<open>prep_time = p\<close> on existing recipes
  succeeds, keeps every row and stores \<open>p\<close> on each written row, whatever its sign; a
  creation without \<open>prep_time\<close> stores 0 on the new row, and a creation with
  \<open>prep_time = p\<close> stores \<open>p\<close>.
\<close>

theorem prep_time_stored_as_given:
  assumes "\<forall>v. r_serving_size vals = Some v \<longrightarrow> 0 < v"
  shows "(exists_ids ids (recipes d) \<longrightarrow>
            (\<exists>d'. write_recipe ids (vals\<lparr>r_prep_time := Some p\<rparr>) d = Inr d'
               \<and> ids_of (recipes d') = ids_of (recipes d)
               \<and> (\<forall>(j, r') \<in> set (recipes d'). j \<in> set ids \<longrightarrow> prep_time r' = p)))
       \<and> (r_name vals \<noteq> None \<and> next_id d \<notin> set (ids_of (recipes d)) \<longrightarrow>
            (\<exists>d'. create_recipe (vals\<lparr>r_prep_time := None\<rparr>) d = Inr d'
               \<and> browse [next_id d] (recipes d') \<noteq> []
               \<and> (\<forall>r \<in> set (browse [next_id d] (recipes d')). prep_time r = 0))
          \<and> (\<exists>d'. create_recipe (vals\<lparr>r_prep_time := Some p\<rparr>) d = Inr d'
               \<and> browse [next_id d] (recipes d') \<noteq> []
               \<and> (\<forall>r \<in> set (browse [next_id d] (recipes d')). prep_time r = p)))"
proof -
  have s: "\<forall>v. r_serving_size (vals\<lparr>r_prep_time := x\<rparr>) = Some v \<longrightarrow> 0 < v" for x
    using assms by simp
  have A: "exists_ids ids (recipes d) \<longrightarrow>
            (\<exists>d'. write_recipe ids (vals\<lparr>r_prep_time := Some p\<rparr>) d = Inr d'
               \<and> ids_of (recipes d') = ids_of (recipes d)
               \<and> (\<forall>(j, r') \<in> set (recipes d'). j \<in> set ids \<longrightarrow> prep_time r' = p))"
    using write_recipe_prep_time [OF _ s, of ids d "Some p" p] by simp
  have B: "\<exists>d'. create_recipe (vals\<lparr>r_prep_time := x\<rparr>) d = Inr d'
               \<and> browse [next_id d] (recipes d') \<noteq> []
               \<and> (\<forall>r \<in> set (browse [next_id d] (recipes d')).
                     prep_time r = (case x of None \<Rightarrow> 0 | Some p \<Rightarrow> p))"
    if "r_name vals = Some n" "next_id d \<notin> set (ids_of (recipes d))" for n x
    using create_recipe_prep_time [OF _ s that(2), of x n] that(1) by simp
  from A B [of _ None] B [of _ "Some p"] show ?thesis
    by (cases "r_name vals") simp_all
qed

theorem prep_time_stored_as_given_witness:
  "r_serving_size (no_recipe_vals\<lparr>r_name := Some ''Miso Soup'', r_serving_size := Some 3\<rparr>)
     = Some 3
   \<and> (0::int) < 3
   \<and> exists_ids [1] (recipes demo_db)
   \<and> r_name (no_recipe_vals\<lparr>r_name := Some ''Miso Soup'', r_serving_size := Some 3\<rparr>) \<noteq> None
   \<and> next_id demo_db \<notin> set (ids_of (recipes demo_db))
   \<and> (\<exists>d'. write_recipe [1] (no_recipe_vals\<lparr>r_name := Some ''Miso Soup'',
                r_serving_size := Some 3, r_prep_time := Some (- 5)\<rparr>) demo_db = Inr d'
         \<and> ids_of (recipes d') = ids_of (recipes demo_db)
         \<and> (\<forall>(j, r') \<in> set (recipes d'). j \<in> set [1] \<longrightarrow> prep_time r' = - 5))
   \<and> (\<exists>d'. create_recipe (no_recipe_vals\<lparr>r_name := Some ''Miso Soup'',
                r_serving_size := Some 3, r_prep_time := None\<rparr>) demo_db = Inr d'
         \<and> browse [next_id demo_db] (recipes d') \<noteq> []
         \<and> (\<forall>r \<in> set (browse [next_id demo_db] (recipes d')). prep_time r = 0))
   \<and> (\<exists>d'. create_recipe (no_recipe_vals\<lparr>r_name := Some ''Miso Soup'',
                r_serving_size := Some 3, r_prep_time := Some (- 5)\<rparr>) demo_db = Inr d'
         \<and> browse [next_id demo_db] (recipes d') \<noteq> []
         \<and> (\<forall>r \<in> set (browse [next_id demo_db] (recipes d')). prep_time r = - 5))"
proof -
  have h1: "\<forall>v. r_serving_size (no_recipe_vals\<lparr>r_name := Some ''Miso Soup'',
                    r_serving_size := Some 3\<rparr>) = Some v \<longrightarrow> 0 < v"
    by simp
  have h2: "exists_ids [1] (recipes demo_db)"
    by (simp add: exists_ids_def ids_of_def demo_db_def)
  have h3: "r_name (no_recipe_vals\<lparr>r_name := Some ''Miso Soup'', r_serving_size := Some 3\<rparr>)
              \<noteq> None"
    by simp
  have h4: "next_id demo_db \<notin> set (ids_of (recipes demo_db))"
    by (simp add: demo_db_def ids_of_def)
  from prep_time_stored_as_given [OF h1, of "[1]" demo_db "- 5"] h1 h2 h3 h4
  show ?thesis by simp
qed

subsection \<open>Reading the instruction steps\<close>

text \<open>
  C7. The instruction steps read back for a recipe are sorted in ascending order of
  \<open>sequence\<close>; they are exactly the steps of that recipe, each as often as it is stored;
  and steps with the same \<open>sequence\<close> keep the order they have in the table, so the
  tie-break is stable.
\<close>

theorem instructions_sorted_by_sequence:
  "sorted (map sequence (instruction_ids d rid))
   \<and> set (instruction_ids d rid) =
       {s. \<exists>i. (i, s) \<in> set (instructions d) \<and> RecipeInstruction.recipe_id s = rid}
   \<and> length (instruction_ids d rid) =
       length (filter (\<lambda>(i, s). RecipeInstruction.recipe_id s = rid) (instructions d))
   \<and> (\<forall>k. filter (\<lambda>s. sequence s = k) (instruction_ids d rid) =
            filter (\<lambda>s. sequence s = k)
              (map snd (filter (\<lambda>(i, s). RecipeInstruction.recipe_id s = rid)
                          (instructions d))))"
proof -
  have "set (instruction_ids d rid) =
       {s. \<exists>i. (i, s) \<in> set (instructions d) \<and> RecipeInstruction.recipe_id s = rid}"
    unfolding instruction_ids_def by force
  then show ?thesis
    by (simp add: instruction_ids_def sort_key_stable)
qed

text \<open>Scenario 5 of the spec: the steps were entered with sequence 20, then 10.\<close>

lemma instructions_of_scenario: "instruction_ids demo_db 1 = [demo_cook, demo_slice]"
  by (simp add: instruction_ids_def demo_db_def demo_cook_def demo_slice_def)

subsection \<open>Deleting a recipe\<close>

lemma unlink_recipe_result:
  "execute (UnlinkRecipe ids) d =
     Inr (d\<lparr>recipes := filter (\<lambda>(j, r). j \<notin> set ids) (recipes d),
            ingredients :=
              filter (\<lambda>(i, g). RecipeIngredient.recipe_id g \<notin> set ids) (ingredients d),
            instructions :=
              filter (\<lambda>(i, s). RecipeInstruction.recipe_id s \<notin> set ids) (instructions d)\<rparr>)"
  by (simp add: unlink_recipe_def)

lemma filter_filter_other:
  "(\<And>x. Q x \<Longrightarrow> P x) \<Longrightarrow> filter Q (filter P xs) = filter Q xs"
  by (induction xs) auto

lemma filter_filter_none:
  "(\<And>x. Q x \<Longrightarrow> \<not> P x) \<Longrightarrow> filter Q (filter P xs) = []"
  by (induction xs) auto

text \<open>
  C6. Deleting recipes always succeeds and leaves no ingredient line and no instruction
  step that references a deleted recipe: reading the children of a deleted recipe
  gives nothing, the children of every other recipe are what they were, and a database
  without orphans stays without orphans.
\<close>

theorem unlink_recipe_cascades:
  "\<exists>d'. execute (UnlinkRecipe ids) d = Inr d'
     \<and> (\<forall>(i, g) \<in> set (ingredients d'). RecipeIngredient.recipe_id g \<notin> set ids)
     \<and> (\<forall>(i, s) \<in> set (instructions d'). RecipeInstruction.recipe_id s \<notin> set ids)
     \<and> (\<forall>rid \<in> set ids. rid \<notin> set (ids_of (recipes d'))
            \<and> ingredient_ids d' rid = [] \<and> instruction_ids d' rid = [])
     \<and> (\<forall>rid. rid \<notin> set ids \<longrightarrow>
            ingredient_ids d' rid = ingredient_ids d rid
            \<and> instruction_ids d' rid = instruction_ids d rid)
     \<and> (no_orphans d \<longrightarrow> no_orphans d')"
proof -
  let ?d' = "d\<lparr>recipes := filter (\<lambda>(j, r). j \<notin> set ids) (recipes d),
            ingredients :=
              filter (\<lambda>(i, g). RecipeIngredient.recipe_id g \<notin> set ids) (ingredients d),
            instructions :=
              filter (\<lambda>(i, s). RecipeInstruction.recipe_id s \<notin> set ids) (instructions d)\<rparr>"
  have a: "\<forall>(i, g) \<in> set (ingredients ?d'). RecipeIngredient.recipe_id g \<notin> set ids"
    by auto
  have b: "\<forall>(i, s) \<in> set (instructions ?d'). RecipeInstruction.recipe_id s \<notin> set ids"
    by auto
  have c: "\<forall>rid \<in> set ids. rid \<notin> set (ids_of (recipes ?d'))
            \<and> ingredient_ids ?d' rid = [] \<and> instruction_ids ?d' rid = []"
  proof
    fix rid assume rid: "rid \<in> set ids"
    have "filter (\<lambda>(i, g). RecipeIngredient.recipe_id g = rid)
            (filter (\<lambda>(i, g). RecipeIngredient.recipe_id g \<notin> set ids) (ingredients d)) = []"
      by (rule filter_filter_none) (use rid in auto)
    moreover have "filter (\<lambda>(i, s). RecipeInstruction.recipe_id s = rid)
            (filter (\<lambda>(i, s). RecipeInstruction.recipe_id s \<notin> set ids) (instructions d)) = []"
      by (rule filter_filter_none) (use rid in auto)
    moreover have "rid \<notin> set (ids_of (recipes ?d'))"
      using rid by (auto simp: ids_of_def)
    ultimately show "rid \<notin> set (ids_of (recipes ?d'))
            \<and> ingredient_ids ?d' rid = [] \<and> instruction_ids ?d' rid = []"
      by (simp add: ingredient_ids_def instruction_ids_def del: filter_filter)
  qed
  have e: "\<forall>rid. rid \<notin> set ids \<longrightarrow>
            ingredient_ids ?d' rid = ingredient_ids d rid
            \<and> instruction_ids ?d' rid = instruction_ids d rid"
  proof (intro allI impI)
    fix rid assume rid: "rid \<notin> set ids"
    have "filter (\<lambda>(i, g). RecipeIngredient.recipe_id g = rid)
            (filter (\<lambda>(i, g). RecipeIngredient.recipe_id g \<notin> set ids) (ingredients d))
        = filter (\<lambda>(i, g). RecipeIngredient.recipe_id g = rid) (ingredients d)"
      by (rule filter_filter_other) (use rid in auto)
    moreover have "filter (\<lambda>(i, s). RecipeInstruction.recipe_id s = rid)
            (filter (\<lambda>(i, s). RecipeInstruction.recipe_id s \<notin> set ids) (instructions d))
        = filter (\<lambda>(i, s). RecipeInstruction.recipe_id s = rid) (instructions d)"
      by (rule filter_filter_other) (use rid in auto)
    ultimately show "ingredient_ids ?d' rid = ingredient_ids d rid
            \<and> instruction_ids ?d' rid = instruction_ids d rid"
      by (simp add: ingredient_ids_def instruction_ids_def del: filter_filter)
  qed
  have f: "no_orphans d \<longrightarrow> no_orphans ?d'"
    unfolding no_orphans_def ids_of_def by (auto; force)
  from a b c e f unlink_recipe_result [of ids d] show ?thesis
    by blast
qed


theorem unlink_recipe_cascades_witness:
  "no_orphans demo_db \<and> (1::nat) \<in> set [1]
   \<and> (\<exists>d'. execute (UnlinkRecipe [1]) demo_db = Inr d'
         \<and> ingredient_ids d' 1 = [] \<and> instruction_ids d' 1 = [] \<and> no_orphans d')"
proof -
  have h: "no_orphans demo_db"
    by (simp add: no_orphans_def demo_db_def ids_of_def demo_salmon_def demo_rice_def
          demo_slice_def demo_cook_def)
  have m: "(1::nat) \<in> set [1]"
    by simp
  from unlink_recipe_cascades [of "[1]" demo_db]
  obtain d' where "execute (UnlinkRecipe [1]) demo_db = Inr d'"
    and "\<forall>rid \<in> set [1::nat]. rid \<notin> set (ids_of (recipes d'))
            \<and> ingredient_ids d' rid = [] \<and> instruction_ids d' rid = []"
    and "no_orphans demo_db \<longrightarrow> no_orphans d'"
    by blast
  with h m show ?thesis by blast
qed

subsection \<open>Frames and rows of the compute methods\<close>

lemma recipe_total_cost_frame [simp]:
  "ingredients (Recipe_compute_total_cost self d) = ingredients d"
  "instructions (Recipe_compute_total_cost self d) = instructions d"
  "products (Recipe_compute_total_cost self d) = products d"
  "next_id (Recipe_compute_total_cost self d) = next_id d"
  by (simp_all add: Recipe_compute_total_cost_closed)

lemma cost_per_serving_frame [simp]:
  "ingredients (Recipe_compute_cost_per_serving self d) = ingredients d"
  "instructions (Recipe_compute_cost_per_serving self d) = instructions d"
  "products (Recipe_compute_cost_per_serving self d) = products d"
  "next_id (Recipe_compute_cost_per_serving self d) = next_id d"
  by (simp_all add: Recipe_compute_cost_per_serving_closed)

lemma unit_cost_frame [simp]:
  "recipes (RecipeIngredient_compute_unit_cost self d) = recipes d"
  "instructions (RecipeIngredient_compute_unit_cost self d) = instructions d"
  "products (RecipeIngredient_compute_unit_cost self d) = products d"
  "next_id (RecipeIngredient_compute_unit_cost self d) = next_id d"
  by (simp_all add: RecipeIngredient_compute_unit_cost_closed)

lemma ingredient_ids_frame [simp]:
  "ingredient_ids (Recipe_compute_total_cost self d) = ingredient_ids d"
  "ingredient_ids (Recipe_compute_cost_per_serving self d) = ingredient_ids d"
  by (simp_all add: ingredient_ids_def fun_eq_iff)

lemma recipe_ids_frame [simp]:
  "ids_of (recipes (Recipe_compute_total_cost self d)) = ids_of (recipes d)"
  "ids_of (recipes (Recipe_compute_cost_per_serving self d)) = ids_of (recipes d)"
  by (auto simp: ids_of_def total_cost_recipes cost_per_serving_recipes)

lemma ingredient_total_cost_ingredients:
  "ingredients (RecipeIngredient_compute_total_cost self d) =
     map (\<lambda>(j, g). if j \<in> set self
          then (j, g\<lparr>RecipeIngredient.total_cost := quantity g * unit_cost g\<rparr>)
          else (j, g)) (ingredients d)"
  by (simp add: RecipeIngredient_compute_total_cost_closed)

lemma unit_cost_ingredients:
  "ingredients (RecipeIngredient_compute_unit_cost self d) =
     map (\<lambda>(j, g). if j \<in> set self
          then (j, g\<lparr>unit_cost := (case products d (product_id g) of
                                      None \<Rightarrow> 0 | Some p \<Rightarrow> standard_price p)\<rparr>)
          else (j, g)) (ingredients d)"
  by (simp add: RecipeIngredient_compute_unit_cost_closed)

lemma ingredient_total_cost_row:
  "(j, g') \<in> set (ingredients (RecipeIngredient_compute_total_cost self d)) \<longleftrightarrow>
   (\<exists>g. (j, g) \<in> set (ingredients d) \<and>
        g' = (if j \<in> set self
              then g\<lparr>RecipeIngredient.total_cost := quantity g * unit_cost g\<rparr> else g))"
  unfolding ingredient_total_cost_ingredients
  by (rule in_map_rows [where P = "\<lambda>j. j \<in> set self"
        and f = "\<lambda>j g. g\<lparr>RecipeIngredient.total_cost := quantity g * unit_cost g\<rparr>"])

lemma ingredient_unit_cost_row:
  "(j, g') \<in> set (ingredients (RecipeIngredient_compute_unit_cost self d)) \<longleftrightarrow>
   (\<exists>g. (j, g) \<in> set (ingredients d) \<and>
        g' = (if j \<in> set self
              then g\<lparr>unit_cost := (case products d (product_id g) of
                                      None \<Rightarrow> 0 | Some p \<Rightarrow> standard_price p)\<rparr>
              else g))"
  unfolding unit_cost_ingredients
  by (rule in_map_rows [where P = "\<lambda>j. j \<in> set self"
        and f = "\<lambda>j g. g\<lparr>unit_cost := (case products d (product_id g) of
                                      None \<Rightarrow> 0 | Some p \<Rightarrow> standard_price p)\<rparr>"])

text \<open>Recomputing the two costs of a set of recipes establishes I2 and I4 on them.\<close>

lemma settled_row:
  assumes "(rid, r') \<in> set (recipes (Recipe_compute_cost_per_serving rs
                                        (Recipe_compute_total_cost rs d)))"
  shows "\<exists>r. (rid, r) \<in> set (recipes d)
    \<and> (rid \<notin> set rs \<longrightarrow> r' = r)
    \<and> (rid \<in> set rs \<longrightarrow>
           Recipe.total_cost r' =
             py_sum (map RecipeIngredient.total_cost (ingredient_ids d rid))
         \<and> cost_per_serving r' =
             (if serving_size r' > 0
              then Recipe.total_cost r' / of_int (serving_size r') else 0)
         \<and> serving_size r' = serving_size r \<and> prep_time r' = prep_time r)"
proof -
  from assms obtain r1 where r1: "(rid, r1) \<in> set (recipes (Recipe_compute_total_cost rs d))"
    and e1: "r' = (if rid \<in> set rs
              then (if serving_size r1 > 0
                    then r1\<lparr>cost_per_serving :=
                            Recipe.total_cost r1 / of_int (serving_size r1)\<rparr>
                    else r1\<lparr>cost_per_serving := 0\<rparr>)
              else r1)"
    unfolding cost_per_serving_row by blast
  from r1 obtain r where r: "(rid, r) \<in> set (recipes d)"
    and e: "r1 = (if rid \<in> set rs
              then r\<lparr>Recipe.total_cost :=
                     py_sum (map RecipeIngredient.total_cost (ingredient_ids d rid))\<rparr>
              else r)"
    unfolding total_cost_row by blast
  show ?thesis
    by (rule exI [of _ r]) (use r e1 e in simp)
qed

lemma settle_I2:
  assumes "\<forall>(rid, r) \<in> set (recipes d). rid \<notin> set rs \<longrightarrow>
             Recipe.total_cost r =
               py_sum (map RecipeIngredient.total_cost (ingredient_ids d rid))"
  shows "I2 (Recipe_compute_cost_per_serving rs (Recipe_compute_total_cost rs d))"
  unfolding I2_def
proof (clarify)
  fix rid r'
  assume "(rid, r') \<in> set (recipes (Recipe_compute_cost_per_serving rs
                                        (Recipe_compute_total_cost rs d)))"
  from settled_row [OF this]
  obtain r where r: "(rid, r) \<in> set (recipes d)"
    and out: "rid \<notin> set rs \<longrightarrow> r' = r"
    and ins: "rid \<in> set rs \<longrightarrow>
           Recipe.total_cost r' =
             py_sum (map RecipeIngredient.total_cost (ingredient_ids d rid))
         \<and> cost_per_serving r' =
             (if serving_size r' > 0
              then Recipe.total_cost r' / of_int (serving_size r') else 0)
         \<and> serving_size r' = serving_size r \<and> prep_time r' = prep_time r"
    by blast
  show "Recipe.total_cost r' =
          py_sum (map RecipeIngredient.total_cost
            (ingredient_ids (Recipe_compute_cost_per_serving rs
                               (Recipe_compute_total_cost rs d)) rid))"
  proof (cases "rid \<in> set rs")
    case True
    with ins show ?thesis by simp
  next
    case False
    with out r assms show ?thesis by auto
  qed
qed

lemma settle_I4:
  assumes "\<forall>(rid, r) \<in> set (recipes d). rid \<notin> set rs \<longrightarrow>
             cost_per_serving r =
               (if serving_size r > 0
                then Recipe.total_cost r / of_int (serving_size r) else 0)"
  shows "I4 (Recipe_compute_cost_per_serving rs (Recipe_compute_total_cost rs d))"
  unfolding I4_def
proof (clarify)
  fix rid r'
  assume "(rid, r') \<in> set (recipes (Recipe_compute_cost_per_serving rs
                                        (Recipe_compute_total_cost rs d)))"
  from settled_row [OF this]
  obtain r where r: "(rid, r) \<in> set (recipes d)"
    and out: "rid \<notin> set rs \<longrightarrow> r' = r"
    and ins: "rid \<in> set rs \<longrightarrow>
           Recipe.total_cost r' =
             py_sum (map RecipeIngredient.total_cost (ingredient_ids d rid))
         \<and> cost_per_serving r' =
             (if serving_size r' > 0
              then Recipe.total_cost r' / of_int (serving_size r') else 0)
         \<and> serving_size r' = serving_size r \<and> prep_time r' = prep_time r"
    by blast
  show "cost_per_serving r' =
          (if 0 < serving_size r'
           then Recipe.total_cost r' / of_int (serving_size r') else 0)"
  proof (cases "rid \<in> set rs")
    case True
    with ins show ?thesis by blast
  next
    case False
    with out r assms show ?thesis by auto
  qed
qed

subsection \<open>The ingredient operations in closed form\<close>

lemma map_rows_fuse: "map_rows S f (map_rows S h xs) = map_rows S (f \<circ> h) xs"
  unfolding map_rows_def by (induction xs) auto

lemma map_rows_append: "map_rows S f (xs @ ys) = map_rows S f xs @ map_rows S f ys"
  unfolding map_rows_def by simp

lemma ingredient_total_cost_map_rows:
  "ingredients (RecipeIngredient_compute_total_cost self d) =
     map_rows self line_total_cost (ingredients d)"
  by (auto simp: ingredient_total_cost_ingredients map_rows_def line_total_cost_def)

lemma unit_cost_map_rows:
  "ingredients (RecipeIngredient_compute_unit_cost self d) =
     map_rows self (line_unit_cost (products d)) (ingredients d)"
  by (auto simp: unit_cost_ingredients map_rows_def line_unit_cost_def)

lemma set_owners:
  "set (owners ids d) =
     {RecipeIngredient.recipe_id g | i g. (i, g) \<in> set (ingredients d) \<and> i \<in> set ids}"
  unfolding owners_def browse_def by force

lemma write_ingredient_effect:
  assumes "write_ingredient ids vals d = Inr d'"
  shows "\<exists>d3. ingredients d3 = map_rows ids (written_line vals (products d)) (ingredients d)
            \<and> recipes d3 = recipes d \<and> products d3 = products d
            \<and> d' = (if g_product_id vals \<noteq> None \<or> g_quantity vals \<noteq> None
                         \<or> g_recipe_id vals \<noteq> None
                     then Recipe_compute_cost_per_serving (owners ids d @ owners ids d3)
                            (Recipe_compute_total_cost (owners ids d @ owners ids d3) d3)
                     else d3)"
proof -
  let ?d1 = "d\<lparr>ingredients := map_rows ids (ingredient_write_vals vals) (ingredients d)\<rparr>"
  let ?d2 = "if g_product_id vals \<noteq> None
             then RecipeIngredient_compute_unit_cost ids ?d1 else ?d1"
  let ?d3 = "if g_product_id vals \<noteq> None \<or> g_quantity vals \<noteq> None
             then RecipeIngredient_compute_total_cost ids ?d2 else ?d2"
  have f: "written_line vals (products d) =
             (if g_product_id vals \<noteq> None \<or> g_quantity vals \<noteq> None
              then line_total_cost else id)
             \<circ> ((if g_product_id vals \<noteq> None then line_unit_cost (products d) else id)
                 \<circ> ingredient_write_vals vals)"
    by (auto simp: fun_eq_iff written_line_def Let_def)
  have i3: "ingredients ?d3 =
              map_rows ids (written_line vals (products d)) (ingredients d)"
    unfolding f
    by (cases "g_product_id vals"; cases "g_quantity vals")
       (simp_all add: ingredient_total_cost_map_rows unit_cost_map_rows map_rows_fuse
          del: o_apply)
  have p3: "products ?d3 = products d" "recipes ?d3 = recipes d"
    by simp_all
  have "d' = (if g_product_id vals \<noteq> None \<or> g_quantity vals \<noteq> None
                         \<or> g_recipe_id vals \<noteq> None
                     then Recipe_compute_cost_per_serving (owners ids d @ owners ids ?d3)
                            (Recipe_compute_total_cost (owners ids d @ owners ids ?d3) ?d3)
                     else ?d3)"
    using assms unfolding write_ingredient_def Let_def
    by (auto split: if_splits)
  with i3 p3 show ?thesis by blast
qed

lemma create_ingredient_effect:
  assumes "create_ingredient vals d = Inr d'"
  shows "\<exists>rid pid u d3. g_recipe_id vals = Some rid \<and> g_product_id vals = Some pid
            \<and> products d pid \<noteq> None \<and> rid \<in> set (ids_of (recipes d))
            \<and> ingredients d3 =
                map_rows [next_id d] (line_total_cost \<circ> line_unit_cost (products d))
                  (ingredients d @ [(next_id d, new_ingredient rid pid u vals)])
            \<and> recipes d3 = recipes d \<and> products d3 = products d
            \<and> d' = Recipe_compute_cost_per_serving (owners [next_id d] d3)
                     (Recipe_compute_total_cost (owners [next_id d] d3) d3)"
proof -
  from assms obtain rid pid u where v: "g_recipe_id vals = Some rid"
      "g_product_id vals = Some pid" "g_uom_id vals = Some u"
    and ok: "rid \<in> set (ids_of (recipes d))" "products d pid \<noteq> None"
    unfolding create_ingredient_def
    by (auto split: option.splits if_splits)
  let ?i = "next_id d"
  let ?d1 = "d\<lparr>ingredients := ingredients d @ [(?i, new_ingredient rid pid u vals)],
                next_id := Suc ?i\<rparr>"
  let ?d3 = "RecipeIngredient_compute_total_cost [?i]
               (RecipeIngredient_compute_unit_cost [?i] ?d1)"
  have i3: "ingredients ?d3 =
              map_rows [?i] (line_total_cost \<circ> line_unit_cost (products d))
                (ingredients d @ [(?i, new_ingredient rid pid u vals)])"
    by (simp add: ingredient_total_cost_map_rows unit_cost_map_rows map_rows_fuse
          del: o_apply)
  have p3: "recipes ?d3 = recipes d" "products ?d3 = products d"
    by simp_all
  have "d' = Recipe_compute_cost_per_serving (owners [?i] ?d3)
               (Recipe_compute_total_cost (owners [?i] ?d3) ?d3)"
    using assms v ok unfolding create_ingredient_def Let_def by simp
  with v ok i3 p3 show ?thesis by blast
qed

lemma write_product_price_effect:
  assumes "write_product_price pid price d = Inr d'"
  shows "\<exists>p d3 lines. products d pid = Some p
            \<and> lines = map fst (filter (\<lambda>(i, g). product_id g = pid) (ingredients d))
            \<and> products d3 = (products d)(pid \<mapsto> p\<lparr>standard_price := price\<rparr>)
            \<and> ingredients d3 =
                map_rows lines (line_total_cost \<circ> line_unit_cost (products d3))
                  (ingredients d)
            \<and> recipes d3 = recipes d
            \<and> d' = Recipe_compute_cost_per_serving (owners lines d3)
                     (Recipe_compute_total_cost (owners lines d3) d3)"
proof -
  from assms obtain p where p: "products d pid = Some p"
    unfolding write_product_price_def by (auto split: option.splits)
  let ?d1 = "d\<lparr>products := (products d)(pid \<mapsto> p\<lparr>standard_price := price\<rparr>)\<rparr>"
  let ?lines = "map fst (filter (\<lambda>(i, g). product_id g = pid) (ingredients d))"
  let ?d3 = "RecipeIngredient_compute_total_cost ?lines
               (RecipeIngredient_compute_unit_cost ?lines ?d1)"
  have p3: "products ?d3 = (products d)(pid \<mapsto> p\<lparr>standard_price := price\<rparr>)"
       "recipes ?d3 = recipes d"
    by simp_all
  have i3: "ingredients ?d3 =
              map_rows ?lines (line_total_cost \<circ> line_unit_cost (products ?d3))
                (ingredients d)"
    by (simp add: ingredient_total_cost_map_rows unit_cost_map_rows map_rows_fuse
          del: o_apply)
  have "d' = Recipe_compute_cost_per_serving (owners ?lines ?d3)
               (Recipe_compute_total_cost (owners ?lines ?d3) ?d3)"
    using assms p unfolding write_product_price_def Let_def by simp
  with p p3 i3 show ?thesis by blast
qed

subsection \<open>Every line carries quantity times unit cost\<close>

lemma all_map_rows:
  "(\<forall>(j, g') \<in> set (map_rows ids f tbl). P g') \<longleftrightarrow>
   (\<forall>(j, g) \<in> set tbl. if j \<in> set ids then P (f g) else P g)"
  unfolding map_rows_def by (induction tbl) (auto split: if_splits)

lemma I3_frame:
  "ingredients d' = ingredients d \<Longrightarrow> I3 d' = I3 d"
  by (simp add: I3_def)

lemma I3_line_total_cost:
  "RecipeIngredient.total_cost (line_total_cost g) =
     quantity (line_total_cost g) * unit_cost (line_total_cost g)"
  by (simp add: line_total_cost_def)

lemma I3_written_line:
  assumes "RecipeIngredient.total_cost g = quantity g * unit_cost g"
  shows "RecipeIngredient.total_cost (written_line vals ps g) =
           quantity (written_line vals ps g) * unit_cost (written_line vals ps g)"
proof (cases "g_product_id vals \<noteq> None \<or> g_quantity vals \<noteq> None")
  case True
  then show ?thesis
    by (simp add: written_line_def Let_def I3_line_total_cost)
next
  case False
  then show ?thesis
    using assms
    by (simp add: written_line_def Let_def ingredient_write_vals_def or_else_def)
qed

lemma I3_create_ingredient:
  assumes "I3 d" and "create_ingredient vals d = Inr d'"
  shows "I3 d'"
proof -
  from create_ingredient_effect [OF assms(2)]
  obtain rid pid u d3 where
    i3: "ingredients d3 =
           map_rows [next_id d] (line_total_cost \<circ> line_unit_cost (products d))
             (ingredients d @ [(next_id d, new_ingredient rid pid u vals)])"
    and d': "d' = Recipe_compute_cost_per_serving (owners [next_id d] d3)
                   (Recipe_compute_total_cost (owners [next_id d] d3) d3)"
    by blast
  have "I3 d3"
    unfolding I3_def i3 all_map_rows
    using assms(1) by (auto simp: I3_def I3_line_total_cost)
  then show ?thesis
    unfolding d' by (simp add: I3_def)
qed

lemma I3_write_ingredient:
  assumes "I3 d" and "write_ingredient ids vals d = Inr d'"
  shows "I3 d'"
proof -
  from write_ingredient_effect [OF assms(2)]
  obtain d3 where
    i3: "ingredients d3 = map_rows ids (written_line vals (products d)) (ingredients d)"
    and d': "d' = (if g_product_id vals \<noteq> None \<or> g_quantity vals \<noteq> None
                         \<or> g_recipe_id vals \<noteq> None
                     then Recipe_compute_cost_per_serving (owners ids d @ owners ids d3)
                            (Recipe_compute_total_cost (owners ids d @ owners ids d3) d3)
                     else d3)"
    by blast
  have "I3 d3"
    unfolding I3_def i3 all_map_rows
    using assms(1) by (auto simp: I3_def I3_written_line)
  then show ?thesis
    unfolding d' by (simp add: I3_def)
qed

lemma I3_unlink_ingredient:
  assumes "I3 d" and "unlink_ingredient ids d = Inr d'"
  shows "I3 d'"
  using assms by (auto simp: unlink_ingredient_def Let_def I3_def)

lemma I3_write_product_price:
  assumes "I3 d" and "write_product_price pid price d = Inr d'"
  shows "I3 d'"
proof -
  from write_product_price_effect [OF assms(2)]
  obtain d3 lines where
    i3: "ingredients d3 =
           map_rows lines (line_total_cost \<circ> line_unit_cost (products d3)) (ingredients d)"
    and d': "d' = Recipe_compute_cost_per_serving (owners lines d3)
                   (Recipe_compute_total_cost (owners lines d3) d3)"
    by blast
  have "I3 d3"
    unfolding I3_def
    by (subst i3, unfold all_map_rows) (use assms(1) in \<open>auto simp: I3_def I3_line_total_cost\<close>)
  then show ?thesis
    unfolding d' by (simp add: I3_def)
qed

lemma I3_recipe_ops:
  "I3 d \<Longrightarrow> create_recipe vals d = Inr d' \<Longrightarrow> I3 d'"
  "I3 d \<Longrightarrow> write_recipe ids vals d = Inr d' \<Longrightarrow> I3 d'"
  "I3 d \<Longrightarrow> unlink_recipe ids d = Inr d' \<Longrightarrow> I3 d'"
  "I3 d \<Longrightarrow> create_instruction svals d = Inr d' \<Longrightarrow> I3 d'"
  "I3 d \<Longrightarrow> write_instruction ids svals d = Inr d' \<Longrightarrow> I3 d'"
  "I3 d \<Longrightarrow> unlink_instruction ids d = Inr d' \<Longrightarrow> I3 d'"
  by (auto simp: create_recipe_def write_recipe_def unlink_recipe_def create_instruction_def
        write_instruction_def unlink_instruction_def Let_def I3_def
        split: option.splits if_splits sum.splits)

lemma I3_execute:
  assumes "I3 d" and "execute f d = Inr d'"
  shows "I3 d'"
  using assms
  by (cases f)
     (auto intro: I3_recipe_ops I3_create_ingredient I3_write_ingredient
        I3_unlink_ingredient I3_write_product_price)

lemma reachable_I3: "reachable d \<Longrightarrow> I3 d"
proof (induction rule: reachable.induct)
  case (init ps)
  show ?case by (simp add: I3_def)
next
  case (step d f d')
  from step.IH step.hyps(2) show ?case by (rule I3_execute)
qed

subsection \<open>Every line carries the price of its product\<close>

lemma unit_cost_synced_alt:
  "unit_cost_synced d = (\<forall>(i, g) \<in> set (ingredients d). line_synced (products d) g)"
  by (simp add: unit_cost_synced_def line_synced_def)

lemma synced_recomputed:
  "ps (product_id g) \<noteq> None \<Longrightarrow> line_synced ps (line_total_cost (line_unit_cost ps g))"
  by (auto simp: line_synced_def line_total_cost_def line_unit_cost_def)

lemma synced_written_line:
  assumes "line_synced ps g"
      and "\<forall>pid. g_product_id vals = Some pid \<longrightarrow> ps pid \<noteq> None"
  shows "line_synced ps (written_line vals ps g)"
proof (cases "g_product_id vals")
  case None
  with assms(1) show ?thesis
    by (auto simp: written_line_def Let_def line_synced_def line_total_cost_def
          ingredient_write_vals_def or_else_def)
next
  case (Some pid)
  with assms(2) obtain p where "ps pid = Some p" by auto
  with Some show ?thesis
    by (simp add: written_line_def Let_def line_synced_def line_total_cost_def
          line_unit_cost_def ingredient_write_vals_def or_else_def)
qed

lemma synced_create_ingredient:
  assumes "unit_cost_synced d" and "create_ingredient vals d = Inr d'"
  shows "unit_cost_synced d'"
proof -
  from create_ingredient_effect [OF assms(2)]
  obtain rid pid u d3 where pid: "products d pid \<noteq> None"
    and i3: "ingredients d3 =
           map_rows [next_id d] (line_total_cost \<circ> line_unit_cost (products d))
             (ingredients d @ [(next_id d, new_ingredient rid pid u vals)])"
    and p3: "products d3 = products d"
    and d': "d' = Recipe_compute_cost_per_serving (owners [next_id d] d3)
                   (Recipe_compute_total_cost (owners [next_id d] d3) d3)"
    by blast
  have new: "products d (product_id (new_ingredient rid pid u vals)) \<noteq> None"
    using pid by (simp add: new_ingredient_def)
  have old: "products d (product_id g) \<noteq> None \<and> line_synced (products d) g"
    if "(j, g) \<in> set (ingredients d)" for j g
    using assms(1) that by (auto simp: unit_cost_synced_alt line_synced_def)
  have "unit_cost_synced d3"
    unfolding unit_cost_synced_alt i3 p3 all_map_rows
    using new old by (auto simp: synced_recomputed)
  then show ?thesis
    unfolding d' by (simp add: unit_cost_synced_def)
qed

lemma write_ingredient_checked:
  assumes "write_ingredient ids vals d = Inr d'"
  shows "exists_ids ids (ingredients d)
       \<and> (\<forall>pid. g_product_id vals = Some pid \<longrightarrow> products d pid \<noteq> None)
       \<and> (\<forall>rid. g_recipe_id vals = Some rid \<longrightarrow> rid \<in> set (ids_of (recipes d)))"
  using assms unfolding write_ingredient_def
  by (auto split: if_splits option.splits)

lemma synced_write_ingredient:
  assumes "unit_cost_synced d" and "write_ingredient ids vals d = Inr d'"
  shows "unit_cost_synced d'"
proof -
  from write_ingredient_effect [OF assms(2)]
  obtain d3 where
    i3: "ingredients d3 = map_rows ids (written_line vals (products d)) (ingredients d)"
    and p3: "products d3 = products d"
    and d': "d' = (if g_product_id vals \<noteq> None \<or> g_quantity vals \<noteq> None
                         \<or> g_recipe_id vals \<noteq> None
                     then Recipe_compute_cost_per_serving (owners ids d @ owners ids d3)
                            (Recipe_compute_total_cost (owners ids d @ owners ids d3) d3)
                     else d3)"
    by blast
  from write_ingredient_checked [OF assms(2)]
  have ok: "\<forall>pid. g_product_id vals = Some pid \<longrightarrow> products d pid \<noteq> None"
    by blast
  have "unit_cost_synced d3"
    unfolding unit_cost_synced_alt i3 p3 all_map_rows
    using assms(1) ok by (auto simp: unit_cost_synced_alt intro: synced_written_line)
  then show ?thesis
    unfolding d' by (simp add: unit_cost_synced_def)
qed

lemma synced_unlink_ingredient:
  assumes "unit_cost_synced d" and "unlink_ingredient ids d = Inr d'"
  shows "unit_cost_synced d'"
  using assms by (auto simp: unlink_ingredient_def Let_def unit_cost_synced_def)

lemma synced_write_product_price:
  assumes "unit_cost_synced d" and "write_product_price pid price d = Inr d'"
  shows "unit_cost_synced d'"
proof -
  from write_product_price_effect [OF assms(2)]
  obtain p d3 lines where p: "products d pid = Some p"
    and lines: "lines = map fst (filter (\<lambda>(i, g). product_id g = pid) (ingredients d))"
    and p3: "products d3 = (products d)(pid \<mapsto> p\<lparr>standard_price := price\<rparr>)"
    and i3: "ingredients d3 =
           map_rows lines (line_total_cost \<circ> line_unit_cost (products d3)) (ingredients d)"
    and d': "d' = Recipe_compute_cost_per_serving (owners lines d3)
                   (Recipe_compute_total_cost (owners lines d3) d3)"
    by blast
  have row: "if j \<in> set lines
             then line_synced (products d3)
                    ((line_total_cost \<circ> line_unit_cost (products d3)) g)
             else line_synced (products d3) g"
    if jg: "(j, g) \<in> set (ingredients d)" for j g
  proof -
    from assms(1) jg have s: "line_synced (products d) g"
      by (auto simp: unit_cost_synced_alt)
    then have ex: "products d3 (product_id g) \<noteq> None"
      by (auto simp: p3 line_synced_def)
    show ?thesis
    proof (cases "j \<in> set lines")
      case True
      with ex show ?thesis by (simp add: synced_recomputed)
    next
      case False
      with jg have "product_id g \<noteq> pid"
        unfolding lines by force
      with s False show ?thesis
        by (simp add: p3 line_synced_def)
    qed
  qed
  have "unit_cost_synced d3"
    unfolding unit_cost_synced_alt
    by (subst i3, unfold all_map_rows) (use row in blast)
  then show ?thesis
    unfolding d' by (simp add: unit_cost_synced_def)
qed

lemma synced_recipe_ops:
  "unit_cost_synced d \<Longrightarrow> create_recipe vals d = Inr d' \<Longrightarrow> unit_cost_synced d'"
  "unit_cost_synced d \<Longrightarrow> write_recipe ids vals d = Inr d' \<Longrightarrow> unit_cost_synced d'"
  "unit_cost_synced d \<Longrightarrow> unlink_recipe ids d = Inr d' \<Longrightarrow> unit_cost_synced d'"
  "unit_cost_synced d \<Longrightarrow> create_instruction svals d = Inr d' \<Longrightarrow> unit_cost_synced d'"
  "unit_cost_synced d \<Longrightarrow> write_instruction ids svals d = Inr d' \<Longrightarrow> unit_cost_synced d'"
  "unit_cost_synced d \<Longrightarrow> unlink_instruction ids d = Inr d' \<Longrightarrow> unit_cost_synced d'"
  by (auto simp: create_recipe_def write_recipe_def unlink_recipe_def create_instruction_def
        write_instruction_def unlink_instruction_def Let_def unit_cost_synced_def
        split: option.splits if_splits sum.splits)

lemma synced_execute:
  assumes "unit_cost_synced d" and "execute f d = Inr d'"
  shows "unit_cost_synced d'"
  using assms
  by (cases f)
     (auto intro: synced_recipe_ops synced_create_ingredient synced_write_ingredient
        synced_unlink_ingredient synced_write_product_price)

lemma reachable_synced: "reachable d \<Longrightarrow> unit_cost_synced d"
proof (induction rule: reachable.induct)
  case (init ps)
  show ?case by (simp add: unit_cost_synced_def)
next
  case (step d f d')
  from step.IH step.hyps(2) show ?case by (rule synced_execute)
qed

subsection \<open>Every recipe carries the sum of its lines\<close>

lemma I2_settle:
  assumes "I2 d" and "recipes d3 = recipes d"
      and "\<forall>rid. rid \<notin> set rs \<longrightarrow>
             map RecipeIngredient.total_cost (ingredient_ids d3 rid) =
             map RecipeIngredient.total_cost (ingredient_ids d rid)"
  shows "I2 (Recipe_compute_cost_per_serving rs (Recipe_compute_total_cost rs d3))"
proof (rule settle_I2, clarify)
  fix rid r
  assume "(rid, r) \<in> set (recipes d3)" and "rid \<notin> set rs"
  with assms show "Recipe.total_cost r =
    py_sum (map RecipeIngredient.total_cost (ingredient_ids d3 rid))"
    by (auto simp: I2_def)
qed

lemma I2_same:
  assumes "I2 d" and "recipes d3 = recipes d"
      and "\<forall>rid. map RecipeIngredient.total_cost (ingredient_ids d3 rid) =
             map RecipeIngredient.total_cost (ingredient_ids d rid)"
  shows "I2 d3"
  using assms by (auto simp: I2_def)

lemma filter_map_rows_frame:
  assumes "\<forall>(j, g) \<in> set xs. j \<in> set ids \<longrightarrow>
             RecipeIngredient.recipe_id g \<noteq> rid \<and> RecipeIngredient.recipe_id (f g) \<noteq> rid"
  shows "filter (\<lambda>(i, g). RecipeIngredient.recipe_id g = rid) (map_rows ids f xs) =
         filter (\<lambda>(i, g). RecipeIngredient.recipe_id g = rid) xs"
  using assms unfolding map_rows_def by (induction xs) (auto split: if_splits)

lemma totals_map_rows_same:
  assumes "\<forall>g. RecipeIngredient.recipe_id (f g) = RecipeIngredient.recipe_id g
             \<and> RecipeIngredient.total_cost (f g) = RecipeIngredient.total_cost g"
  shows "map RecipeIngredient.total_cost
           (map snd (filter (\<lambda>(i, g). RecipeIngredient.recipe_id g = rid) (map_rows ids f xs))) =
         map RecipeIngredient.total_cost
           (map snd (filter (\<lambda>(i, g). RecipeIngredient.recipe_id g = rid) xs))"
proof (induction xs)
  case Nil
  show ?case by (simp add: map_rows_def)
next
  case (Cons x xs)
  obtain j g where x: "x = (j, g)" by (cases x)
  from assms have f: "RecipeIngredient.recipe_id (f g) = RecipeIngredient.recipe_id g"
    "RecipeIngredient.total_cost (f g) = RecipeIngredient.total_cost g"
    by simp_all
  from Cons.IH show ?case
    unfolding x by (cases "j \<in> set ids") (simp_all add: map_rows_def f)
qed

lemma ingredient_ids_frame_rows:
  assumes i3: "ingredients d3 = map_rows ids f (ingredients d)"
      and b: "rid \<notin> set (owners ids d)" and a: "rid \<notin> set (owners ids d3)"
  shows "ingredient_ids d3 rid = ingredient_ids d rid"
proof -
  have "\<forall>(j, g) \<in> set (ingredients d). j \<in> set ids \<longrightarrow>
          RecipeIngredient.recipe_id g \<noteq> rid \<and> RecipeIngredient.recipe_id (f g) \<noteq> rid"
  proof (clarify)
    fix j g
    assume jg: "(j, g) \<in> set (ingredients d)" and j: "j \<in> set ids"
    from jg j b have 1: "RecipeIngredient.recipe_id g \<noteq> rid"
      unfolding set_owners by blast
    from jg j have "(j, f g) \<in> set (ingredients d3)"
      unfolding i3 map_rows_row by auto
    with j a have 2: "RecipeIngredient.recipe_id (f g) \<noteq> rid"
      unfolding set_owners by blast
    from 1 2 show "RecipeIngredient.recipe_id g \<noteq> rid
                 \<and> RecipeIngredient.recipe_id (f g) \<noteq> rid"
      by blast
  qed
  from filter_map_rows_frame [OF this] show ?thesis
    by (simp add: ingredient_ids_def i3)
qed

lemma recipe_id_written_line:
  "RecipeIngredient.recipe_id (written_line vals ps g) =
     or_else (g_recipe_id vals) (RecipeIngredient.recipe_id g)"
  by (simp add: written_line_def Let_def line_total_cost_def line_unit_cost_def
        ingredient_write_vals_def)

lemma untouched_written_line:
  assumes "g_product_id vals = None" "g_quantity vals = None" "g_recipe_id vals = None"
  shows "RecipeIngredient.recipe_id (written_line vals ps g) = RecipeIngredient.recipe_id g
       \<and> RecipeIngredient.total_cost (written_line vals ps g) = RecipeIngredient.total_cost g"
  using assms by (simp add: written_line_def Let_def ingredient_write_vals_def or_else_def)

lemma I2_write_ingredient:
  assumes "I2 d" and "write_ingredient ids vals d = Inr d'"
  shows "I2 d'"
proof -
  from write_ingredient_effect [OF assms(2)]
  obtain d3 where
    i3: "ingredients d3 = map_rows ids (written_line vals (products d)) (ingredients d)"
    and r3: "recipes d3 = recipes d"
    and d': "d' = (if g_product_id vals \<noteq> None \<or> g_quantity vals \<noteq> None
                         \<or> g_recipe_id vals \<noteq> None
                     then Recipe_compute_cost_per_serving (owners ids d @ owners ids d3)
                            (Recipe_compute_total_cost (owners ids d @ owners ids d3) d3)
                     else d3)"
    by blast
  show ?thesis
  proof (cases "g_product_id vals \<noteq> None \<or> g_quantity vals \<noteq> None
                  \<or> g_recipe_id vals \<noteq> None")
    case True
    have "\<forall>rid. rid \<notin> set (owners ids d @ owners ids d3) \<longrightarrow>
             map RecipeIngredient.total_cost (ingredient_ids d3 rid) =
             map RecipeIngredient.total_cost (ingredient_ids d rid)"
      using ingredient_ids_frame_rows [OF i3] by simp
    from I2_settle [OF assms(1) r3 this] True show ?thesis
      unfolding d' by simp
  next
    case False
    then have u: "g_product_id vals = None" "g_quantity vals = None" "g_recipe_id vals = None"
      by simp_all
    have "\<forall>rid. map RecipeIngredient.total_cost (ingredient_ids d3 rid) =
             map RecipeIngredient.total_cost (ingredient_ids d rid)"
      unfolding ingredient_ids_def i3
      using totals_map_rows_same [of "written_line vals (products d)"]
            untouched_written_line [OF u] by blast
    from I2_same [OF assms(1) r3 this] False show ?thesis
      unfolding d' by simp
  qed
qed

lemma I2_write_product_price:
  assumes "I2 d" and "write_product_price pid price d = Inr d'"
  shows "I2 d'"
proof -
  from write_product_price_effect [OF assms(2)]
  obtain d3 lines where
    i3: "ingredients d3 =
           map_rows lines (line_total_cost \<circ> line_unit_cost (products d3)) (ingredients d)"
    and r3: "recipes d3 = recipes d"
    and d': "d' = Recipe_compute_cost_per_serving (owners lines d3)
                   (Recipe_compute_total_cost (owners lines d3) d3)"
    by blast
  have pres: "RecipeIngredient.recipe_id ((line_total_cost \<circ> line_unit_cost ps) g) =
                RecipeIngredient.recipe_id g" for ps g
    by (simp add: line_total_cost_def line_unit_cost_def)
  have sub: "set (owners lines d) = set (owners lines d3)"
    unfolding set_owners
  proof (intro set_eqI iffI; clarify)
    fix i g assume "(i, g) \<in> set (ingredients d)" "i \<in> set lines"
    then have "(i, (line_total_cost \<circ> line_unit_cost (products d3)) g) \<in> set (ingredients d3)"
      by (subst i3) (auto simp: map_rows_row)
    with \<open>i \<in> set lines\<close> pres [of "products d3" g]
    show "\<exists>i' g'. RecipeIngredient.recipe_id g = RecipeIngredient.recipe_id g'
             \<and> (i', g') \<in> set (ingredients d3) \<and> i' \<in> set lines"
      by metis
  next
    fix i g assume "(i, g) \<in> set (ingredients d3)" and i: "i \<in> set lines"
    then have "(i, g) \<in> set (map_rows lines (line_total_cost \<circ> line_unit_cost (products d3))
                                (ingredients d))"
      using i3 by simp
    then obtain g0 where "(i, g0) \<in> set (ingredients d)"
       and "g = (line_total_cost \<circ> line_unit_cost (products d3)) g0"
      using i unfolding map_rows_row by auto
    with i pres [of "products d3" g0]
    show "\<exists>i' g'. RecipeIngredient.recipe_id g = RecipeIngredient.recipe_id g'
             \<and> (i', g') \<in> set (ingredients d) \<and> i' \<in> set lines"
      by metis
  qed
  have "\<forall>rid. rid \<notin> set (owners lines d3) \<longrightarrow>
             map RecipeIngredient.total_cost (ingredient_ids d3 rid) =
             map RecipeIngredient.total_cost (ingredient_ids d rid)"
    using ingredient_ids_frame_rows [OF i3] sub by simp
  from I2_settle [OF assms(1) r3 this] show ?thesis
    unfolding d' .
qed

lemma I2_create_ingredient:
  assumes "I2 d" and "create_ingredient vals d = Inr d'"
  shows "I2 d'"
proof -
  from create_ingredient_effect [OF assms(2)]
  obtain rid pid u d3 where
    i3: "ingredients d3 =
           map_rows [next_id d] (line_total_cost \<circ> line_unit_cost (products d))
             (ingredients d @ [(next_id d, new_ingredient rid pid u vals)])"
    and r3: "recipes d3 = recipes d"
    and d': "d' = Recipe_compute_cost_per_serving (owners [next_id d] d3)
                   (Recipe_compute_total_cost (owners [next_id d] d3) d3)"
    by blast
  let ?f = "line_total_cost \<circ> line_unit_cost (products d)"
  let ?new = "new_ingredient rid pid u vals"
  let ?d1 = "d\<lparr>ingredients := ingredients d @ [(next_id d, ?new)]\<rparr>"
  have pres: "RecipeIngredient.recipe_id (?f g) = RecipeIngredient.recipe_id g" for g
    by (simp add: line_total_cost_def line_unit_cost_def)
  have i31: "ingredients d3 = map_rows [next_id d] ?f (ingredients ?d1)"
    using i3 by simp
  have frame: "map RecipeIngredient.total_cost (ingredient_ids d3 r0) =
               map RecipeIngredient.total_cost (ingredient_ids d r0)"
    if r0: "r0 \<notin> set (owners [next_id d] d3)" for r0
  proof -
    have "(next_id d, ?f ?new) \<in> set (ingredients d3)"
      unfolding i3 map_rows_row by auto
    with r0 have ne: "RecipeIngredient.recipe_id ?new \<noteq> r0"
      unfolding set_owners using pres [of ?new] by force
    have "r0 \<notin> set (owners [next_id d] ?d1)"
    proof
      assume "r0 \<in> set (owners [next_id d] ?d1)"
      then obtain i g where g: "(i, g) \<in> set (ingredients ?d1)" "i \<in> set [next_id d]"
        and e: "r0 = RecipeIngredient.recipe_id g"
        unfolding set_owners by blast
      from g have "(i, ?f g) \<in> set (ingredients d3)"
        unfolding i31 map_rows_row by auto
      with g(2) e pres [of g] have "r0 \<in> set (owners [next_id d] d3)"
        unfolding set_owners
        by (intro CollectI exI [of _ i] exI [of _ "?f g"]) simp
      with r0 show False by simp
    qed
    from ingredient_ids_frame_rows [OF i31 this r0]
    have "ingredient_ids d3 r0 = ingredient_ids ?d1 r0" .
    also have "\<dots> = ingredient_ids d r0"
      using ne by (simp add: ingredient_ids_def)
    finally show ?thesis by simp
  qed
  then have "\<forall>r0. r0 \<notin> set (owners [next_id d] d3) \<longrightarrow>
             map RecipeIngredient.total_cost (ingredient_ids d3 r0) =
             map RecipeIngredient.total_cost (ingredient_ids d r0)"
    by blast
  from I2_settle [OF assms(1) r3 this] show ?thesis
    unfolding d' .
qed

lemma filter_unlinked:
  assumes "\<forall>(j, g) \<in> set xs. j \<in> set ids \<longrightarrow> RecipeIngredient.recipe_id g \<noteq> rid"
  shows "filter (\<lambda>(i, g). RecipeIngredient.recipe_id g = rid)
           (filter (\<lambda>(i, g). i \<notin> set ids) xs) =
         filter (\<lambda>(i, g). RecipeIngredient.recipe_id g = rid) xs"
  using assms by (induction xs) auto

lemma I2_unlink_ingredient:
  assumes "I2 d" and "unlink_ingredient ids d = Inr d'"
  shows "I2 d'"
proof -
  let ?d1 = "d\<lparr>ingredients := filter (\<lambda>(i, g). i \<notin> set ids) (ingredients d)\<rparr>"
  have d': "d' = Recipe_compute_cost_per_serving (owners ids d)
                   (Recipe_compute_total_cost (owners ids d) ?d1)"
    using assms(2) by (simp add: unlink_ingredient_def Let_def)
  have "ingredient_ids ?d1 r0 = ingredient_ids d r0" if "r0 \<notin> set (owners ids d)" for r0
  proof -
    from that have "\<forall>(j, g) \<in> set (ingredients d). j \<in> set ids \<longrightarrow>
                      RecipeIngredient.recipe_id g \<noteq> r0"
      unfolding set_owners by blast
    from filter_unlinked [OF this] show ?thesis
      by (simp add: ingredient_ids_def)
  qed
  then have "\<forall>r0. r0 \<notin> set (owners ids d) \<longrightarrow>
             map RecipeIngredient.total_cost (ingredient_ids ?d1 r0) =
             map RecipeIngredient.total_cost (ingredient_ids d r0)"
    by simp
  from I2_settle [OF assms(1) _ this] show ?thesis
    unfolding d' by simp
qed

lemma I2_create_recipe:
  assumes "I2 d" and "create_recipe vals d = Inr d'"
  shows "I2 d'"
proof -
  from assms(2) obtain n where n: "r_name vals = Some n"
    unfolding create_recipe_def by (auto split: option.splits)
  let ?rid = "next_id d"
  let ?d1 = "d\<lparr>recipes := recipes d @ [(?rid, new_recipe n vals)], next_id := Suc ?rid\<rparr>"
  have d': "d' = Recipe_compute_cost_per_serving [?rid] (Recipe_compute_total_cost [?rid] ?d1)"
    using assms(2) n unfolding create_recipe_def Let_def
    by (auto split: sum.splits)
  have "\<forall>(rid, r) \<in> set (recipes ?d1). rid \<notin> set [?rid] \<longrightarrow>
             Recipe.total_cost r =
               py_sum (map RecipeIngredient.total_cost (ingredient_ids ?d1 rid))"
    using assms(1) by (auto simp: I2_def ingredient_ids_def)
  from settle_I2 [OF this] show ?thesis
    unfolding d' .
qed

lemma I2_rows:
  assumes "I2 d"
      and "\<forall>(j, r') \<in> set (recipes d'). \<exists>r. (j, r) \<in> set (recipes d)
              \<and> Recipe.total_cost r' = Recipe.total_cost r"
      and "ingredients d' = ingredients d"
  shows "I2 d'"
  unfolding I2_def
proof (clarify)
  fix j r' assume "(j, r') \<in> set (recipes d')"
  with assms(2) obtain r where r: "(j, r) \<in> set (recipes d)"
    and e: "Recipe.total_cost r' = Recipe.total_cost r"
    by blast
  from assms(3) have "ingredient_ids d' j = ingredient_ids d j"
    by (simp add: ingredient_ids_def)
  with assms(1) r e show "Recipe.total_cost r' =
      py_sum (map RecipeIngredient.total_cost (ingredient_ids d' j))"
    by (auto simp: I2_def)
qed

lemma I2_write_recipe:
  assumes "I2 d" and "write_recipe ids vals d = Inr d'"
  shows "I2 d'"
proof -
  let ?d1 = "d\<lparr>recipes := map_rows ids (recipe_write_vals vals) (recipes d)\<rparr>"
  have tc: "Recipe.total_cost (recipe_write_vals vals r) = Recipe.total_cost r" for r
    by (simp add: recipe_write_vals_def)
  have r1: "\<exists>r. (j, r) \<in> set (recipes d) \<and> Recipe.total_cost r1 = Recipe.total_cost r"
    if "(j, r1) \<in> set (recipes ?d1)" for j r1
  proof -
    from that have "(j, r1) \<in> set (map_rows ids (recipe_write_vals vals) (recipes d))"
      by simp
    then obtain r where r: "(j, r) \<in> set (recipes d)"
      and e: "r1 = (if j \<in> set ids then recipe_write_vals vals r else r)"
      unfolding map_rows_row by blast
    from e have "Recipe.total_cost r1 = Recipe.total_cost r"
      by (cases "j \<in> set ids") (simp_all add: tc)
    with r show ?thesis by blast
  qed
  have r2: "\<exists>r. (j, r) \<in> set (recipes d) \<and> Recipe.total_cost r2 = Recipe.total_cost r"
    if "(j, r2) \<in> set (recipes (Recipe_compute_cost_per_serving ids ?d1))" for j r2
  proof -
    from that obtain r1 where m: "(j, r1) \<in> set (recipes ?d1)"
      and e: "r2 = (if j \<in> set ids
              then (if serving_size r1 > 0
                    then r1\<lparr>cost_per_serving := Recipe.total_cost r1 / of_int (serving_size r1)\<rparr>
                    else r1\<lparr>cost_per_serving := 0\<rparr>)
              else r1)"
      unfolding cost_per_serving_row by blast
    from e have "Recipe.total_cost r2 = Recipe.total_cost r1"
      by (cases "j \<in> set ids"; cases "serving_size r1 > 0") simp_all
    with r1 [OF m] show ?thesis by simp
  qed
  have cases: "d' = ?d1 \<or> d' = Recipe_compute_cost_per_serving ids ?d1"
  proof (cases "r_serving_size vals")
    case None
    with assms(2) show ?thesis
      by (simp add: write_recipe_def Let_def split: if_splits)
  next
    case (Some v)
    with assms(2) show ?thesis
      by (simp add: write_recipe_def Let_def split: if_splits sum.splits)
  qed
  then show ?thesis
  proof
    assume e: "d' = ?d1"
    have rows: "\<forall>(j, r') \<in> set (recipes d'). \<exists>r. (j, r) \<in> set (recipes d)
              \<and> Recipe.total_cost r' = Recipe.total_cost r"
      unfolding e using r1 by blast
    have ing: "ingredients d' = ingredients d"
      unfolding e by simp
    from I2_rows [OF assms(1) rows ing] show ?thesis .
  next
    assume e: "d' = Recipe_compute_cost_per_serving ids ?d1"
    have rows: "\<forall>(j, r') \<in> set (recipes d'). \<exists>r. (j, r) \<in> set (recipes d)
              \<and> Recipe.total_cost r' = Recipe.total_cost r"
      unfolding e using r2 by blast
    have ing: "ingredients d' = ingredients d"
      unfolding e by simp
    from I2_rows [OF assms(1) rows ing] show ?thesis .
  qed
qed

lemma filter_cascade:
  assumes "rid \<notin> set ids"
  shows "filter (\<lambda>(i, g). RecipeIngredient.recipe_id g = rid)
           (filter (\<lambda>(i, g). RecipeIngredient.recipe_id g \<notin> set ids) xs) =
         filter (\<lambda>(i, g). RecipeIngredient.recipe_id g = rid) xs"
  using assms by (induction xs) auto

lemma I2_unlink_recipe:
  assumes "I2 d" and "unlink_recipe ids d = Inr d'"
  shows "I2 d'"
proof -
  have d': "d' = d\<lparr>recipes := filter (\<lambda>(j, r). j \<notin> set ids) (recipes d),
            ingredients :=
              filter (\<lambda>(i, g). RecipeIngredient.recipe_id g \<notin> set ids) (ingredients d),
            instructions :=
              filter (\<lambda>(i, s). RecipeInstruction.recipe_id s \<notin> set ids) (instructions d)\<rparr>"
    using assms(2) by (simp add: unlink_recipe_def)
  show ?thesis
    unfolding I2_def
  proof (clarify)
    fix rid r assume "(rid, r) \<in> set (recipes d')"
    then have in_d: "(rid, r) \<in> set (recipes d)" and out: "rid \<notin> set ids"
      unfolding d' by auto
    have ing: "ingredients d' =
        filter (\<lambda>(i, g). RecipeIngredient.recipe_id g \<notin> set ids) (ingredients d)"
      unfolding d' by simp
    have "ingredient_ids d' rid = ingredient_ids d rid"
      unfolding ingredient_ids_def ing filter_cascade [OF out] ..
    with assms(1) in_d show "Recipe.total_cost r =
        py_sum (map RecipeIngredient.total_cost (ingredient_ids d' rid))"
      by (auto simp: I2_def)
  qed
qed

lemma I2_instruction_ops:
  "I2 d \<Longrightarrow> create_instruction svals d = Inr d' \<Longrightarrow> I2 d'"
  "I2 d \<Longrightarrow> write_instruction ids svals d = Inr d' \<Longrightarrow> I2 d'"
  "I2 d \<Longrightarrow> unlink_instruction ids d = Inr d' \<Longrightarrow> I2 d'"
  by (auto simp: create_instruction_def write_instruction_def unlink_instruction_def
        I2_def ingredient_ids_def split: option.splits if_splits)

lemma I2_execute:
  assumes "I2 d" and "execute f d = Inr d'"
  shows "I2 d'"
  using assms
  by (cases f)
     (auto intro: I2_create_recipe I2_write_recipe I2_unlink_recipe I2_instruction_ops
        I2_create_ingredient I2_write_ingredient I2_unlink_ingredient
        I2_write_product_price)

lemma reachable_I2: "reachable d \<Longrightarrow> I2 d"
proof (induction rule: reachable.induct)
  case (init ps)
  show ?case by (simp add: I2_def)
next
  case (step d f d')
  from step.IH step.hyps(2) show ?case by (rule I2_execute)
qed

subsection \<open>The total cost of an ingredient line\<close>

lemma write_ingredient_rows:
  assumes "write_ingredient ids vals d = Inr d'"
  shows "ingredients d' = map_rows ids (written_line vals (products d)) (ingredients d)
       \<and> products d' = products d"
proof -
  from write_ingredient_effect [OF assms]
  obtain d3 where
    i3: "ingredients d3 = map_rows ids (written_line vals (products d)) (ingredients d)"
    and p3: "products d3 = products d"
    and d': "d' = (if g_product_id vals \<noteq> None \<or> g_quantity vals \<noteq> None
                         \<or> g_recipe_id vals \<noteq> None
                     then Recipe_compute_cost_per_serving (owners ids d @ owners ids d3)
                            (Recipe_compute_total_cost (owners ids d @ owners ids d3) d3)
                     else d3)"
    by blast
  have "ingredients d' = ingredients d3" "products d' = products d3"
    unfolding d' by simp_all
  with i3 p3 show ?thesis by simp
qed

lemma quantity_written_line:
  "quantity (written_line vals ps g) = or_else (g_quantity vals) (quantity g)"
  by (simp add: written_line_def Let_def line_total_cost_def line_unit_cost_def
        ingredient_write_vals_def)

lemma write_quantity_settled:
  assumes "reachable d" and "write_ingredient ids vals d = Inr d'"
      and "g_quantity vals = Some q"
  shows "ids_of (ingredients d') = ids_of (ingredients d)
       \<and> (\<forall>(i, g) \<in> set (ingredients d'). i \<in> set ids \<longrightarrow>
             quantity g = q \<and> RecipeIngredient.total_cost g = q * unit_cost g)"
proof -
  from write_ingredient_rows [OF assms(2)]
  have rows: "ingredients d' = map_rows ids (written_line vals (products d)) (ingredients d)"
    by simp
  have "execute (WriteIngredient ids vals) d = Inr d'"
    using assms(2) by simp
  from reachable.step [OF assms(1) this] have "I3 d'"
    by (rule reachable_I3)
  then have tc: "RecipeIngredient.total_cost g = quantity g * unit_cost g"
    if "(i, g) \<in> set (ingredients d')" for i g
    using that by (auto simp: I3_def)
  have q: "quantity g = q" if "(i, g) \<in> set (ingredients d')" "i \<in> set ids" for i g
  proof -
    from that obtain g0 where "g = written_line vals (products d) g0"
      unfolding rows map_rows_row by auto
    then show ?thesis
      by (simp add: quantity_written_line assms(3) or_else_def)
  qed
  have "ids_of (ingredients d') = ids_of (ingredients d)"
    unfolding rows by (rule ids_of_map_rows)
  moreover have "\<forall>(i, g) \<in> set (ingredients d'). i \<in> set ids \<longrightarrow>
             quantity g = q \<and> RecipeIngredient.total_cost g = q * unit_cost g"
    using tc q by fastforce
  ultimately show ?thesis by blast
qed

lemma compute_total_cost_rows:
  assumes "(i, g) \<in> set (ingredients (RecipeIngredient_compute_total_cost self d))"
      and "i \<in> set self"
  shows "RecipeIngredient.total_cost g = quantity g * unit_cost g
       \<and> (\<exists>g0. (i, g0) \<in> set (ingredients d) \<and> quantity g = quantity g0
              \<and> unit_cost g = unit_cost g0)"
proof -
  from assms obtain g0 where g0: "(i, g0) \<in> set (ingredients d)"
    and g: "g = g0\<lparr>RecipeIngredient.total_cost := quantity g0 * unit_cost g0\<rparr>"
    unfolding ingredient_total_cost_row by auto
  from g have "RecipeIngredient.total_cost g = quantity g * unit_cost g"
    "quantity g = quantity g0" "unit_cost g = unit_cost g0"
    by simp_all
  with g0 show ?thesis by blast
qed

text \<open>
  C4. \<^verbatim>\<open>RecipeIngredient._compute_total_cost\<close> sets \<open>total_cost = quantity * unit_cost\<close> on
  every line of its record set, leaves \<open>quantity\<close> and \<open>unit_cost\<close> as they were and keeps
  every row. In every reachable state, and after every operation that succeeds in one,
  each ingredient line has \<open>total_cost = quantity * unit_cost\<close>; a write of
  \<open>quantity = q\<close> keeps the rows and leaves each written line with \<open>quantity = q\<close> and
  \<open>total_cost = q * unit_cost\<close>.
\<close>

theorem ingredient_total_cost_settled:
  "(\<forall>(i, g) \<in> set (ingredients (RecipeIngredient_compute_total_cost self d)).
       i \<in> set self \<longrightarrow>
         RecipeIngredient.total_cost g = quantity g * unit_cost g
       \<and> (\<exists>g0. (i, g0) \<in> set (ingredients d) \<and> quantity g = quantity g0
              \<and> unit_cost g = unit_cost g0))
   \<and> ids_of (ingredients (RecipeIngredient_compute_total_cost self d)) = ids_of (ingredients d)
   \<and> (reachable d \<longrightarrow>
        (\<forall>(i, g) \<in> set (ingredients d).
           RecipeIngredient.total_cost g = quantity g * unit_cost g)
      \<and> (\<forall>d'. execute f d = Inr d' \<longrightarrow>
           (\<forall>(i, g) \<in> set (ingredients d').
              RecipeIngredient.total_cost g = quantity g * unit_cost g))
      \<and> (\<forall>d'. write_ingredient ids vals d = Inr d' \<and> g_quantity vals = Some q \<longrightarrow>
            ids_of (ingredients d') = ids_of (ingredients d)
          \<and> (\<forall>(i, g) \<in> set (ingredients d'). i \<in> set ids \<longrightarrow>
                quantity g = q \<and> RecipeIngredient.total_cost g = q * unit_cost g)))"
proof -
  have A: "\<forall>(i, g) \<in> set (ingredients (RecipeIngredient_compute_total_cost self d)).
       i \<in> set self \<longrightarrow>
         RecipeIngredient.total_cost g = quantity g * unit_cost g
       \<and> (\<exists>g0. (i, g0) \<in> set (ingredients d) \<and> quantity g = quantity g0
              \<and> unit_cost g = unit_cost g0)"
    using compute_total_cost_rows [of _ _ self d] by blast
  have B: "ids_of (ingredients (RecipeIngredient_compute_total_cost self d))
             = ids_of (ingredients d)"
    unfolding ingredient_total_cost_map_rows by (rule ids_of_map_rows)
  have C: "\<forall>(i, g) \<in> set (ingredients d).
           RecipeIngredient.total_cost g = quantity g * unit_cost g" if "reachable d"
    using reachable_I3 [OF that] by (simp add: I3_def)
  have D: "\<forall>(i, g) \<in> set (ingredients d').
              RecipeIngredient.total_cost g = quantity g * unit_cost g"
    if "reachable d" "execute f d = Inr d'" for d'
    using reachable_I3 [OF reachable.step [OF that]] by (simp add: I3_def)
  have E: "ids_of (ingredients d') = ids_of (ingredients d)
          \<and> (\<forall>(i, g) \<in> set (ingredients d'). i \<in> set ids \<longrightarrow>
                quantity g = q \<and> RecipeIngredient.total_cost g = q * unit_cost g)"
    if "reachable d" "write_ingredient ids vals d = Inr d'" "g_quantity vals = Some q" for d'
    using write_quantity_settled [OF that] .
  from A B C D E show ?thesis by blast
qed

theorem ingredient_total_cost_settled_witness:
  "reachable demo_db
   \<and> g_quantity (no_ingredient_vals\<lparr>g_quantity := Some (1 / 2)\<rparr>) = Some (1 / 2)
   \<and> (\<exists>d'. write_ingredient [2] (no_ingredient_vals\<lparr>g_quantity := Some (1 / 2)\<rparr>) demo_db
              = Inr d'
         \<and> ids_of (ingredients d') = ids_of (ingredients demo_db)
         \<and> (\<forall>(i, g) \<in> set (ingredients d'). i \<in> set [2] \<longrightarrow>
               quantity g = 1 / 2
             \<and> RecipeIngredient.total_cost g = 1 / 2 * unit_cost g))"
proof -
  have h1: "reachable demo_db"
    by (rule reachable_demo_db)
  have h2: "g_quantity (no_ingredient_vals\<lparr>g_quantity := Some (1 / 2)\<rparr>) = Some (1 / 2)"
    by simp
  have "\<exists>d'. write_ingredient [2] (no_ingredient_vals\<lparr>g_quantity := Some (1 / 2)\<rparr>) demo_db
              = Inr d'"
    by (simp add: write_ingredient_def exists_ids_def ids_of_def demo_db_def
          no_ingredient_vals_def Let_def)
  then obtain d' where h3:
    "write_ingredient [2] (no_ingredient_vals\<lparr>g_quantity := Some (1 / 2)\<rparr>) demo_db = Inr d'"
    by blast
  from ingredient_total_cost_settled [of "[2]" demo_db
         "WriteIngredient [2] (no_ingredient_vals\<lparr>g_quantity := Some (1 / 2)\<rparr>)"
         "[2]" "no_ingredient_vals\<lparr>g_quantity := Some (1 / 2)\<rparr>" "1 / 2"] h1 h2 h3
  show ?thesis by blast
qed

subsection \<open>The unit cost of an ingredient line\<close>

lemma product_id_written_line:
  "product_id (written_line vals ps g) = or_else (g_product_id vals) (product_id g)"
  by (simp add: written_line_def Let_def line_total_cost_def line_unit_cost_def
        ingredient_write_vals_def)

lemma write_product_settled:
  assumes "reachable d" and "write_ingredient ids vals d = Inr d'"
      and "g_product_id vals = Some pid"
  shows "products d' = products d
       \<and> ids_of (ingredients d') = ids_of (ingredients d)
       \<and> (\<exists>p. products d pid = Some p
            \<and> (\<forall>(i, g) \<in> set (ingredients d'). i \<in> set ids \<longrightarrow>
                  product_id g = pid \<and> unit_cost g = standard_price p))"
proof -
  from write_ingredient_rows [OF assms(2)]
  have rows: "ingredients d' = map_rows ids (written_line vals (products d)) (ingredients d)"
    and ps: "products d' = products d"
    by simp_all
  have "execute (WriteIngredient ids vals) d = Inr d'"
    using assms(2) by simp
  from reachable.step [OF assms(1) this] have s: "unit_cost_synced d'"
    by (rule reachable_synced)
  from write_ingredient_checked [OF assms(2)] assms(3)
  obtain p where p: "products d pid = Some p"
    by auto
  have "product_id g = pid \<and> unit_cost g = standard_price p"
    if "(i, g) \<in> set (ingredients d')" "i \<in> set ids" for i g
  proof -
    from that obtain g0 where "g = written_line vals (products d) g0"
      unfolding rows map_rows_row by auto
    then have pg: "product_id g = pid"
      by (simp add: product_id_written_line assms(3) or_else_def)
    from s that(1) obtain p' where "products d' (product_id g) = Some p'"
      and "unit_cost g = standard_price p'"
      unfolding unit_cost_synced_def by blast
    with pg ps p show ?thesis by simp
  qed
  then have "\<forall>(i, g) \<in> set (ingredients d'). i \<in> set ids \<longrightarrow>
                  product_id g = pid \<and> unit_cost g = standard_price p"
    by blast
  moreover have "ids_of (ingredients d') = ids_of (ingredients d)"
    unfolding rows by (rule ids_of_map_rows)
  ultimately show ?thesis using ps p by blast
qed

lemma write_product_price_rows:
  assumes "write_product_price pid price d = Inr d'"
  shows "(\<exists>p. products d pid = Some p
            \<and> products d' = (products d)(pid \<mapsto> p\<lparr>standard_price := price\<rparr>))
       \<and> ids_of (ingredients d') = ids_of (ingredients d)
       \<and> map (\<lambda>(i, g). (i, product_id g)) (ingredients d') =
           map (\<lambda>(i, g). (i, product_id g)) (ingredients d)"
proof -
  from write_product_price_effect [OF assms]
  obtain p d3 lines where p: "products d pid = Some p"
    and p3: "products d3 = (products d)(pid \<mapsto> p\<lparr>standard_price := price\<rparr>)"
    and i3: "ingredients d3 =
           map_rows lines (line_total_cost \<circ> line_unit_cost (products d3)) (ingredients d)"
    and d': "d' = Recipe_compute_cost_per_serving (owners lines d3)
                   (Recipe_compute_total_cost (owners lines d3) d3)"
    by blast
  have e: "ingredients d' = ingredients d3" "products d' = products d3"
    unfolding d' by simp_all
  have pres: "product_id ((line_total_cost \<circ> line_unit_cost ps) g) = product_id g" for ps g
    by (simp add: line_total_cost_def line_unit_cost_def)
  have "map (\<lambda>(i, g). (i, product_id g)) (map_rows lines (line_total_cost \<circ> line_unit_cost ps) xs)
          = map (\<lambda>(i, g). (i, product_id g)) xs" for ps xs
    unfolding map_rows_def using pres [of ps] by (induction xs) auto
  then have "map (\<lambda>(i, g). (i, product_id g)) (ingredients d') =
           map (\<lambda>(i, g). (i, product_id g)) (ingredients d)"
    unfolding e(1) by (subst i3) simp
  moreover have "ids_of (ingredients d') = ids_of (ingredients d)"
    unfolding e(1) by (subst i3) (rule ids_of_map_rows)
  ultimately show ?thesis
    using p p3 e(2) by simp
qed

lemma write_price_settled:
  assumes "reachable d" and "write_product_price pid price d = Inr d'"
  shows "(\<exists>p. products d' pid = Some p \<and> standard_price p = price)
       \<and> map (\<lambda>(i, g). (i, product_id g)) (ingredients d') =
           map (\<lambda>(i, g). (i, product_id g)) (ingredients d)
       \<and> (\<forall>(i, g) \<in> set (ingredients d'). product_id g = pid \<longrightarrow> unit_cost g = price)"
proof -
  from write_product_price_rows [OF assms(2)]
  obtain p where ps: "products d' = (products d)(pid \<mapsto> p\<lparr>standard_price := price\<rparr>)"
    and same: "map (\<lambda>(i, g). (i, product_id g)) (ingredients d') =
           map (\<lambda>(i, g). (i, product_id g)) (ingredients d)"
    by blast
  have "execute (WriteProductPrice pid price) d = Inr d'"
    using assms(2) by simp
  from reachable.step [OF assms(1) this] have s: "unit_cost_synced d'"
    by (rule reachable_synced)
  have "unit_cost g = price" if "(i, g) \<in> set (ingredients d')" "product_id g = pid" for i g
  proof -
    from s that(1) obtain p' where "products d' (product_id g) = Some p'"
      and "unit_cost g = standard_price p'"
      unfolding unit_cost_synced_def by blast
    with that(2) ps show ?thesis by auto
  qed
  then have "\<forall>(i, g) \<in> set (ingredients d'). product_id g = pid \<longrightarrow> unit_cost g = price"
    by blast
  moreover have "\<exists>p. products d' pid = Some p \<and> standard_price p = price"
    unfolding ps by simp
  ultimately show ?thesis using same by blast
qed

text \<open>
  C5. In every reachable state, and after every operation that succeeds in one, each
  ingredient line is linked to an existing product and its \<open>unit_cost\<close> equals that
  product's \<open>standard_price\<close>. A write of \<open>product_id = pid\<close> keeps the rows and the
  products and leaves each written line linked to \<open>pid\<close> with the price of \<open>pid\<close> as
  its \<open>unit_cost\<close>; a write of a product's price stores the price, changes no link and
  leaves every line linked to that product with the new price as its \<open>unit_cost\<close>.
\<close>

theorem unit_cost_mirrors_product_price:
  assumes "reachable d"
  shows "(\<forall>(i, g) \<in> set (ingredients d).
            \<exists>p. products d (product_id g) = Some p \<and> unit_cost g = standard_price p)
       \<and> (\<forall>d'. execute f d = Inr d' \<longrightarrow>
            (\<forall>(i, g) \<in> set (ingredients d').
               \<exists>p. products d' (product_id g) = Some p \<and> unit_cost g = standard_price p))
       \<and> (\<forall>d'. write_ingredient ids vals d = Inr d' \<and> g_product_id vals = Some pid \<longrightarrow>
              products d' = products d
            \<and> ids_of (ingredients d') = ids_of (ingredients d)
            \<and> (\<exists>p. products d pid = Some p
                 \<and> (\<forall>(i, g) \<in> set (ingredients d'). i \<in> set ids \<longrightarrow>
                       product_id g = pid \<and> unit_cost g = standard_price p)))
       \<and> (\<forall>d'. write_product_price pid price d = Inr d' \<longrightarrow>
              (\<exists>p. products d' pid = Some p \<and> standard_price p = price)
            \<and> map (\<lambda>(i, g). (i, product_id g)) (ingredients d') =
                map (\<lambda>(i, g). (i, product_id g)) (ingredients d)
            \<and> (\<forall>(i, g) \<in> set (ingredients d'). product_id g = pid \<longrightarrow>
                  unit_cost g = price))"
proof -
  have A: "\<forall>(i, g) \<in> set (ingredients d).
            \<exists>p. products d (product_id g) = Some p \<and> unit_cost g = standard_price p"
    using reachable_synced [OF assms] by (simp add: unit_cost_synced_def)
  have B: "\<forall>(i, g) \<in> set (ingredients d').
               \<exists>p. products d' (product_id g) = Some p \<and> unit_cost g = standard_price p"
    if "execute f d = Inr d'" for d'
    using reachable_synced [OF reachable.step [OF assms that]]
    by (simp add: unit_cost_synced_def)
  have C: "products d' = products d
            \<and> ids_of (ingredients d') = ids_of (ingredients d)
            \<and> (\<exists>p. products d pid = Some p
                 \<and> (\<forall>(i, g) \<in> set (ingredients d'). i \<in> set ids \<longrightarrow>
                       product_id g = pid \<and> unit_cost g = standard_price p))"
    if "write_ingredient ids vals d = Inr d'" "g_product_id vals = Some pid" for d'
    using write_product_settled [OF assms that] .
  have D: "(\<exists>p. products d' pid = Some p \<and> standard_price p = price)
            \<and> map (\<lambda>(i, g). (i, product_id g)) (ingredients d') =
                map (\<lambda>(i, g). (i, product_id g)) (ingredients d)
            \<and> (\<forall>(i, g) \<in> set (ingredients d'). product_id g = pid \<longrightarrow>
                  unit_cost g = price)"
    if "write_product_price pid price d = Inr d'" for d'
    using write_price_settled [OF assms that] .
  from A B C D show ?thesis by blast
qed

theorem unit_cost_mirrors_product_price_witness:
  "reachable demo_db
   \<and> (\<exists>d'. write_product_price 1 30 demo_db = Inr d'
         \<and> (\<exists>p. products d' 1 = Some p \<and> standard_price p = 30)
         \<and> map (\<lambda>(i, g). (i, product_id g)) (ingredients d') =
             map (\<lambda>(i, g). (i, product_id g)) (ingredients demo_db)
         \<and> (\<forall>(i, g) \<in> set (ingredients d'). product_id g = 1 \<longrightarrow> unit_cost g = 30))"
proof -
  have h1: "reachable demo_db"
    by (rule reachable_demo_db)
  have "\<exists>d'. write_product_price 1 30 demo_db = Inr d'"
    by (simp add: write_product_price_def demo_db_def demo_products_def Let_def)
  then obtain d' where h2: "write_product_price 1 30 demo_db = Inr d'"
    by blast
  from unit_cost_mirrors_product_price [OF h1, where pid = 1 and price = 30
         and f = "WriteProductPrice 1 30" and ids = "[]" and vals = no_ingredient_vals] h1 h2
  show ?thesis by blast
qed

subsection \<open>The total cost of a recipe\<close>

lemma foldl_add_sum_list: "foldl (+) a xs = a + sum_list xs" for a :: real
  by (induction xs arbitrary: a) simp_all

lemma py_sum_sum_list: "py_sum xs = sum_list xs"
  by (simp add: py_sum_def foldl_add_sum_list)

lemma in_ingredient_ids:
  "g \<in> set (ingredient_ids d rid) \<longleftrightarrow>
   (\<exists>i. (i, g) \<in> set (ingredients d) \<and> RecipeIngredient.recipe_id g = rid)"
  by (force simp: ingredient_ids_def)

lemma settled_totals:
  assumes "reachable d" and "(rid, r) \<in> set (recipes d)"
  shows "Recipe.total_cost r =
           sum_list (map RecipeIngredient.total_cost (ingredient_ids d rid))
       \<and> Recipe.total_cost r =
           sum_list (map (\<lambda>g. quantity g * unit_cost g) (ingredient_ids d rid))
       \<and> (ingredient_ids d rid = [] \<longrightarrow> Recipe.total_cost r = 0)"
proof -
  from reachable_I2 [OF assms(1)] assms(2)
  have t: "Recipe.total_cost r =
           sum_list (map RecipeIngredient.total_cost (ingredient_ids d rid))"
    by (auto simp: I2_def py_sum_sum_list)
  have "RecipeIngredient.total_cost g = quantity g * unit_cost g"
    if "g \<in> set (ingredient_ids d rid)" for g
    using reachable_I3 [OF assms(1)] that
    by (auto simp: I3_def in_ingredient_ids)
  then have m: "map RecipeIngredient.total_cost (ingredient_ids d rid) =
             map (\<lambda>g. quantity g * unit_cost g) (ingredient_ids d rid)"
    by simp
  from t have t2: "Recipe.total_cost r =
           sum_list (map (\<lambda>g. quantity g * unit_cost g) (ingredient_ids d rid))"
    unfolding m .
  from t have t0: "ingredient_ids d rid = [] \<longrightarrow> Recipe.total_cost r = 0"
    by simp
  from t t2 t0 show ?thesis by blast
qed

lemma compute_total_cost_post:
  assumes "(rid, r) \<in> set (recipes (Recipe_compute_total_cost self d))"
      and "rid \<in> set self"
  shows "Recipe.total_cost r =
           sum_list (map RecipeIngredient.total_cost (ingredient_ids d rid))
       \<and> (ingredient_ids d rid = [] \<longrightarrow> Recipe.total_cost r = 0)"
proof -
  from assms obtain r0 where
    "r = r0\<lparr>Recipe.total_cost :=
             py_sum (map RecipeIngredient.total_cost (ingredient_ids d rid))\<rparr>"
    unfolding total_cost_row by auto
  then show ?thesis
    by (simp add: py_sum_sum_list)
qed

lemma create_ingredient_line:
  assumes "create_ingredient vals d = Inr d'"
  shows "\<exists>rid g. g_recipe_id vals = Some rid \<and> g \<in> set (ingredient_ids d' rid)
           \<and> quantity g = or_else (g_quantity vals) 1"
proof -
  from create_ingredient_effect [OF assms]
  obtain rid pid u d3 where rid: "g_recipe_id vals = Some rid"
    and i3: "ingredients d3 =
           map_rows [next_id d] (line_total_cost \<circ> line_unit_cost (products d))
             (ingredients d @ [(next_id d, new_ingredient rid pid u vals)])"
    and d': "d' = Recipe_compute_cost_per_serving (owners [next_id d] d3)
                   (Recipe_compute_total_cost (owners [next_id d] d3) d3)"
    by blast
  let ?g = "(line_total_cost \<circ> line_unit_cost (products d)) (new_ingredient rid pid u vals)"
  have e: "ingredients d' = ingredients d3"
    unfolding d' by simp
  have "(next_id d, ?g) \<in> set (ingredients d')"
    unfolding e i3 map_rows_row by auto
  moreover have "RecipeIngredient.recipe_id ?g = rid"
    "quantity ?g = or_else (g_quantity vals) 1"
    by (simp_all add: line_total_cost_def line_unit_cost_def new_ingredient_def)
  ultimately have "?g \<in> set (ingredient_ids d' rid)
                 \<and> quantity ?g = or_else (g_quantity vals) 1"
    unfolding in_ingredient_ids by blast
  with rid show ?thesis by blast
qed

lemma unlink_ingredient_lines:
  assumes "unlink_ingredient ids d = Inr d'"
  shows "ingredients d' = filter (\<lambda>(i, g). i \<notin> set ids) (ingredients d)"
  using assms by (auto simp: unlink_ingredient_def Let_def)

text \<open>
  C2. \<^verbatim>\<open>Recipe._compute_total_cost\<close> sets \<open>total_cost\<close> of every recipe of its record set
  to the sum of \<open>total_cost\<close> over the recipe's current ingredient lines, which is 0 when
  there are none, and touches neither the lines nor the set of recipes. In every
  reachable state, and after every operation that succeeds in one (adding, removing or
  editing ingredient lines included), every recipe has \<open>total_cost\<close> equal to the sum of
  \<open>total_cost\<close>, and of \<open>quantity * unit_cost\<close>, over its current lines, and 0 when it has
  none. A created line is among the lines of its recipe afterwards, and unlinked lines
  are gone.
\<close>

theorem recipe_total_cost_is_sum_of_lines:
  "(\<forall>(rid, r) \<in> set (recipes (Recipe_compute_total_cost self d)). rid \<in> set self \<longrightarrow>
       Recipe.total_cost r =
         sum_list (map RecipeIngredient.total_cost (ingredient_ids d rid))
     \<and> (ingredient_ids d rid = [] \<longrightarrow> Recipe.total_cost r = 0))
   \<and> ingredients (Recipe_compute_total_cost self d) = ingredients d
   \<and> ids_of (recipes (Recipe_compute_total_cost self d)) = ids_of (recipes d)
   \<and> (reachable d \<longrightarrow>
        (\<forall>(rid, r) \<in> set (recipes d).
            Recipe.total_cost r =
              sum_list (map RecipeIngredient.total_cost (ingredient_ids d rid))
          \<and> Recipe.total_cost r =
              sum_list (map (\<lambda>g. quantity g * unit_cost g) (ingredient_ids d rid))
          \<and> (ingredient_ids d rid = [] \<longrightarrow> Recipe.total_cost r = 0))
      \<and> (\<forall>d'. execute f d = Inr d' \<longrightarrow>
           (\<forall>(rid, r) \<in> set (recipes d').
               Recipe.total_cost r =
                 sum_list (map RecipeIngredient.total_cost (ingredient_ids d' rid))
             \<and> Recipe.total_cost r =
                 sum_list (map (\<lambda>g. quantity g * unit_cost g) (ingredient_ids d' rid))
             \<and> (ingredient_ids d' rid = [] \<longrightarrow> Recipe.total_cost r = 0)))
      \<and> (\<forall>d'. create_ingredient vals d = Inr d' \<longrightarrow>
           (\<exists>rid g. g_recipe_id vals = Some rid \<and> g \<in> set (ingredient_ids d' rid)
              \<and> quantity g = or_else (g_quantity vals) 1))
      \<and> (\<forall>d'. unlink_ingredient ids d = Inr d' \<longrightarrow>
           ingredients d' = filter (\<lambda>(i, g). i \<notin> set ids) (ingredients d)))"
proof -
  have A: "\<forall>(rid, r) \<in> set (recipes (Recipe_compute_total_cost self d)). rid \<in> set self \<longrightarrow>
       Recipe.total_cost r =
         sum_list (map RecipeIngredient.total_cost (ingredient_ids d rid))
     \<and> (ingredient_ids d rid = [] \<longrightarrow> Recipe.total_cost r = 0)"
    using compute_total_cost_post [of _ _ self d] by blast
  have B: "ingredients (Recipe_compute_total_cost self d) = ingredients d"
    "ids_of (recipes (Recipe_compute_total_cost self d)) = ids_of (recipes d)"
    by simp_all
  have C: "\<forall>(rid, r) \<in> set (recipes d).
            Recipe.total_cost r =
              sum_list (map RecipeIngredient.total_cost (ingredient_ids d rid))
          \<and> Recipe.total_cost r =
              sum_list (map (\<lambda>g. quantity g * unit_cost g) (ingredient_ids d rid))
          \<and> (ingredient_ids d rid = [] \<longrightarrow> Recipe.total_cost r = 0)"
    if "reachable d" for d
    using settled_totals [OF that] by blast
  have D: "\<forall>(rid, r) \<in> set (recipes d').
               Recipe.total_cost r =
                 sum_list (map RecipeIngredient.total_cost (ingredient_ids d' rid))
             \<and> Recipe.total_cost r =
                 sum_list (map (\<lambda>g. quantity g * unit_cost g) (ingredient_ids d' rid))
             \<and> (ingredient_ids d' rid = [] \<longrightarrow> Recipe.total_cost r = 0)"
    if "reachable d" "execute f d = Inr d'" for d'
    using C [OF reachable.step [OF that]] .
  have E: "\<exists>rid g. g_recipe_id vals = Some rid \<and> g \<in> set (ingredient_ids d' rid)
              \<and> quantity g = or_else (g_quantity vals) 1"
    if "create_ingredient vals d = Inr d'" for d'
    using create_ingredient_line [OF that] .
  have F: "ingredients d' = filter (\<lambda>(i, g). i \<notin> set ids) (ingredients d)"
    if "unlink_ingredient ids d = Inr d'" for d'
    using unlink_ingredient_lines [OF that] .
  show ?thesis
    apply (intro conjI impI allI)
    subgoal by (rule A)
    subgoal by (rule B(1))
    subgoal by (rule B(2))
    subgoal by (rule C)
    subgoal by (rule D)
    subgoal by (rule E)
    subgoal by (rule F)
    done
qed

theorem recipe_total_cost_is_sum_of_lines_witness:
  "reachable demo_db
   \<and> (1, demo_recipe (52 / 10) (26 / 10)) \<in> set (recipes demo_db)
   \<and> Recipe.total_cost (demo_recipe (52 / 10) (26 / 10)) =
       sum_list (map RecipeIngredient.total_cost (ingredient_ids demo_db 1))
   \<and> (\<exists>d'. execute (UnlinkIngredient [3]) demo_db = Inr d'
         \<and> ingredients d' = filter (\<lambda>(i, g). i \<notin> set [3]) (ingredients demo_db)
         \<and> (\<forall>(rid, r) \<in> set (recipes d').
               Recipe.total_cost r =
                 sum_list (map RecipeIngredient.total_cost (ingredient_ids d' rid))))"
proof -
  have h1: "reachable demo_db"
    by (rule reachable_demo_db)
  have h2: "(1, demo_recipe (52 / 10) (26 / 10)) \<in> set (recipes demo_db)"
    by (simp add: demo_db_def)
  have "\<exists>d'. execute (UnlinkIngredient [3]) demo_db = Inr d'"
    by (simp add: unlink_ingredient_def Let_def)
  then obtain d' where h3: "execute (UnlinkIngredient [3]) demo_db = Inr d'"
    by blast
  then have h4: "unlink_ingredient [3] demo_db = Inr d'"
    by simp
  note t = recipe_total_cost_is_sum_of_lines [where d = demo_db and self = "[1]"
         and f = "UnlinkIngredient [3]" and ids = "[3]" and vals = no_ingredient_vals]
  from t h1 h2 have a: "Recipe.total_cost (demo_recipe (52 / 10) (26 / 10)) =
       sum_list (map RecipeIngredient.total_cost (ingredient_ids demo_db 1))"
    by blast
  from t h1 h3 have b: "\<forall>(rid, r) \<in> set (recipes d').
               Recipe.total_cost r =
                 sum_list (map RecipeIngredient.total_cost (ingredient_ids d' rid))"
    by blast
  from t h1 h4 have c: "ingredients d' = filter (\<lambda>(i, g). i \<notin> set [3]) (ingredients demo_db)"
    by blast
  from h1 h2 h3 a b c show ?thesis by blast
qed

end
